theory Spec2Isabelle
  imports Complex_Main "HOL-Library.AList"
begin

section \<open>The strategy sampler of autodist (strategy/auto/strategy\_sampler.py)\<close>

text \<open>
  A shallow embedding of \<^verbatim>\<open>strategy_sampler.py\<close>. Python's unbounded integers are
  \<open>int\<close>, list positions are \<open>nat\<close>, Python floats are idealised as \<open>real\<close> (exact
  arithmetic, no rounding), every exception is a value of \<open>error\<close>, and a function that
  may raise returns \<open>error + 'a\<close> with \<open>Inl\<close> for the exception.
\<close>

subsection \<open>Exceptions\<close>

datatype error =
    ValueError | TypeError | AttributeError | IndexError | KeyError
  | ZeroDivisionError | AssertionError | ConfigurationError | NotImplementedError

subsection \<open>The raw parameter and its metadata view (class VariableHelper)\<close>

datatype VarType = SPARSE | DENSE

text \<open>
  What the graph adapter exposes of one trainable parameter: \<open>name\<close> is \<^verbatim>\<open>var.name\<close>,
  \<open>grad_is_tensor\<close> is \<^verbatim>\<open>isinstance(grad, ops.Tensor)\<close> for the gradient recorded in
  \<^verbatim>\<open>graph_item.var_op_name_to_grad_info\<close>, \<open>consumer_op_types\<close> lists \<^verbatim>\<open>op.type\<close> over
  \<^verbatim>\<open>get_consumers(var.op)\<close>, \<open>initial_value_shape\<close> is
  \<^verbatim>\<open>var.initial_value.shape.as_list()\<close> and \<open>byte_size_load\<close> is \<^verbatim>\<open>byte_size_load_fn(var)\<close>.
\<close>

record variable =
  name :: string
  grad_is_tensor :: bool
  consumer_op_types :: "string list"
  initial_value_shape :: "int list"
  byte_size_load :: real

text \<open>
  A VariableHelper object. Python resolves \<^verbatim>\<open>var_helper.partitionable_axis\<close> on the
  object at run time. The class defines the property \<^verbatim>\<open>partitionable_axes\<close> and nothing
  named \<^verbatim>\<open>partitionable_axis\<close>, so an object answers that name only when the attribute
  was attached to the instance; the field \<open>partitionable_axis\<close> holds its value then, and
  \<open>None\<close> stands for the AttributeError of the lookup. The constructor attaches nothing.
\<close>

record VariableHelper =
  var :: variable
  partitionable_axis :: "nat list option"

definition VariableHelper_init :: "variable \<Rightarrow> VariableHelper" where
  "VariableHelper_init v = \<lparr> var = v, partitionable_axis = None \<rparr>"

definition var_type :: "VariableHelper \<Rightarrow> VarType" where
  "var_type h = (if grad_is_tensor (var h) then DENSE else SPARSE)"

definition is_sparse :: "VariableHelper \<Rightarrow> bool" where
  "is_sparse h = (if var_type h = SPARSE then True else False)"

definition is_embedding :: "VariableHelper \<Rightarrow> bool" where
  "is_embedding h = (''ResourceGather'' \<in> set (consumer_op_types (var h)))"

definition shape :: "VariableHelper \<Rightarrow> int list option" where
  "shape h = (if length (initial_value_shape (var h)) \<noteq> 0
              then Some (initial_value_shape (var h)) else None)"

definition partitionable_axes :: "VariableHelper \<Rightarrow> nat list" where
  "partitionable_axes h =
     (case shape h of
        None \<Rightarrow> []
      | Some s \<Rightarrow>
          if s = [] then []
          else if is_sparse h \<or> is_embedding h then [0]
          else filter (\<lambda>idx. s ! idx > 1) [0 ..< length s])"

text \<open>
  \<^verbatim>\<open>byte_size\<close> is \<^verbatim>\<open>float(byte_size_load_fn(self.var))\<close>; the conversion to a float
  is taken as exact, as every float operation here is.
\<close>

definition byte_size :: "VariableHelper \<Rightarrow> real" where
  "byte_size h = byte_size_load (var h)"

subsection \<open>The partition descriptor and the shard view (class PartHelper)\<close>

text \<open>
  Class PartitionerConfig lives in \<^verbatim>\<open>autodist.kernel.partitioner\<close>, outside the file.
  The sampler builds it from a partition list and reads \<^verbatim>\<open>axis\<close>, \<^verbatim>\<open>num_shards\<close> and
  \<^verbatim>\<open>partition_str\<close>. The record carries what is read; the serialised string is
  represented by the list it serialises (empty string for the empty list).
\<close>

record PartitionerConfig =
  partition_list :: "int list"
  axis :: nat
  num_shards :: int

text \<open>
  Modelled from the spec: the constructor of PartitionerConfig is missing from the
  source. The spec describes the descriptor as one shard count on the chosen axis and 1
  elsewhere, and the configuration as (axis, shard count): the axis is the first position
  whose entry is not 1 and the shard count is the product of the entries.
\<close>

definition PartitionerConfig_init :: "int list \<Rightarrow> PartitionerConfig" where
  "PartitionerConfig_init pl =
     \<lparr> partition_list = pl,
       axis = length (takeWhile (\<lambda>k. k = 1) pl),
       num_shards = prod_list pl \<rparr>"

record PartHelper =
  part_idx :: int
  part_var :: variable
  pc :: PartitionerConfig

text \<open>
  \<^verbatim>\<open>PartHelper.shape\<close>: \<^verbatim>\<open>//\<close> and \<^verbatim>\<open>%\<close> are Python's floor division and modulus, which
  \<open>div\<close> and \<open>mod\<close> on \<open>int\<close> are too; they raise on a zero divisor, and indexing the
  shape at an axis beyond its length raises IndexError. Nothing else is checked.
\<close>

definition PartHelper_shape :: "PartHelper \<Rightarrow> error + int list" where
  "PartHelper_shape p =
     (let shp = initial_value_shape (part_var p) in
      if length shp \<le> axis (pc p) then Inl IndexError
      else if num_shards (pc p) = 0 then Inl ZeroDivisionError
      else
        let dim_size = shp ! axis (pc p) div num_shards (pc p);
            extras = shp ! axis (pc p) mod num_shards (pc p);
            dim_size = (if part_idx p < extras then dim_size + 1 else dim_size)
        in Inr (shp[axis (pc p) := dim_size]))"

definition var_shape :: "PartHelper \<Rightarrow> int list" where
  "var_shape p = initial_value_shape (part_var p)"

text \<open>
  \<^verbatim>\<open>PartHelper.byte_size\<close>: the product is formed first, then divided by the parent's
  extent as a float; a zero extent raises ZeroDivisionError.
\<close>

definition PartHelper_byte_size :: "PartHelper \<Rightarrow> error + real" where
  "PartHelper_byte_size p =
     (case PartHelper_shape p of
        Inl e \<Rightarrow> Inl e
      | Inr s \<Rightarrow>
          if length (var_shape p) \<le> axis (pc p) then Inl IndexError
          else if var_shape p ! axis (pc p) = 0 then Inl ZeroDivisionError
          else Inr (byte_size_load (part_var p) * real_of_int (s ! axis (pc p))
                      / real_of_int (var_shape p ! axis (pc p))))"

text \<open>
  The shard views that \<^verbatim>\<open>build\<close> creates for one sharded parameter:
  \<^verbatim>\<open>PartHelper(i, var, pc)\<close> for \<^verbatim>\<open>i in range(pc.num_shards)\<close>.
\<close>

definition part_helpers :: "variable \<Rightarrow> PartitionerConfig \<Rightarrow> PartHelper list" where
  "part_helpers v c =
     map (\<lambda>i. \<lparr> part_idx = int i, part_var = v, pc = c \<rparr>) [0 ..< nat (num_shards c)]"

text \<open>Collecting the results of a list of reads; the first exception wins.\<close>

fun collect :: "(error + 'a) list \<Rightarrow> error + 'a list" where
  "collect [] = Inr []"
| "collect (Inl e # rs) = Inl e"
| "collect (Inr x # rs) = (case collect rs of Inl e \<Rightarrow> Inl e | Inr xs \<Rightarrow> Inr (x # xs))"

subsection \<open>The random source and the sampling primitives (module sample\_util)\<close>

text \<open>
  The random source is a tape of draws, threaded through every function that samples;
  a function that consults no randomness returns the tape it was given. An exhausted
  tape keeps yielding 0.
\<close>

type_synonym rng = "nat list"

fun draw :: "rng \<Rightarrow> nat \<times> rng" where
  "draw [] = (0, [])"
| "draw (r # g) = (r, g)"

text \<open>
  Modelled from the spec: module \<^verbatim>\<open>sample_util\<close> is missing from the source. The spec
  gives \<^verbatim>\<open>uniform_choice(candidates)\<close> as one element of a non-empty finite ordered
  collection, failing with ConfigurationError on an empty one. The element is the one
  the next draw points at.
\<close>

definition uniform_sample_by_choices :: "'a list \<Rightarrow> rng \<Rightarrow> error + ('a \<times> rng)" where
  "uniform_sample_by_choices choices g =
     (if choices = [] then Inl ConfigurationError
      else Inr (choices ! (fst (draw g) mod length choices), snd (draw g)))"

text \<open>
  Modelled from the spec: \<^verbatim>\<open>biased_boolean(threshold)\<close> is true with probability
  \<open>threshold\<close>. The next draw is read as a point of the unit interval in thousandths.
\<close>

definition binary_sample :: "real \<Rightarrow> rng \<Rightarrow> error + (bool \<times> rng)" where
  "binary_sample boundary g =
     Inr (real (fst (draw g) mod 1000) < boundary * 1000, snd (draw g))"

text \<open>
  Modelled from the spec: \<^verbatim>\<open>random_partition(k, n)\<close> assigns each of n items, by
  position, one of the k group identifiers \<open>0 .. k - 1\<close>, each chosen independently by
  uniform choice.
\<close>

fun sample_merge_group :: "int \<Rightarrow> nat \<Rightarrow> rng \<Rightarrow> error + (int list \<times> rng)" where
  "sample_merge_group k 0 g = Inr ([], g)"
| "sample_merge_group k (Suc n) g =
     (case uniform_sample_by_choices [0 .. k - 1] g of
        Inl e \<Rightarrow> Inl e
      | Inr (x, g1) \<Rightarrow>
          (case sample_merge_group k n g1 of
             Inl e \<Rightarrow> Inl e
           | Inr (xs, g2) \<Rightarrow> Inr (x # xs, g2)))"

subsection \<open>Cluster descriptor, space and heuristics\<close>

text \<open>
  What the sampler reads of the cluster descriptor: the two lists of (name, device)
  pairs and the two counts.
\<close>

record resource_spec =
  cpu_devices :: "(string \<times> string) list"
  gpu_devices :: "(string \<times> string) list"
  num_cpus :: int
  num_gpus :: int

text \<open>
  The \<^verbatim>\<open>space\<close> dictionary, one field per key. The keys \<^verbatim>\<open>compressor\<close>,
  \<^verbatim>\<open>local_replication\<close> and \<^verbatim>\<open>partitionable_axis\<close> carry the prefix \<open>space_\<close>.
\<close>

record space =
  synchronizer_types :: "string list"
  maybe_partition :: "bool list"
  space_compressor :: "string list"
  space_local_replication :: "bool list"
  space_partitionable_axis :: "nat list"

text \<open>
  A bound of \<^verbatim>\<open>num_partition_bounds\<close>: an integer, a string (the sentinel is
  \<^verbatim>\<open>'num_nodes'\<close>), or a value of another type.
\<close>

datatype bound = IntBound int | StrBound string | OtherBound

text \<open>
  The \<^verbatim>\<open>heuristics\<close> dictionary. \<open>None\<close> in \<open>ps_load_balancer\<close> and \<open>merge_scheme\<close>
  is Python's \<^verbatim>\<open>None\<close>; \<open>None\<close> in \<open>chunk_size\<close> is the absent key, which the code
  tests for; \<open>maybe_partition_by_size\<close> is the truth value of the entry.
\<close>

record heuristics =
  ps_load_balancer :: "string option"
  merge_scheme :: "string option"
  chunk_size :: "int option"
  num_group_bounds :: "int \<times> int"
  maybe_partition_bounds :: "real \<times> real"
  maybe_partition_by_size :: bool
  num_partition_bounds :: "bound \<times> bound"
  enable_single_node_no_partition :: bool
  same_synchronizer_for_parts :: bool

subsection \<open>The strategy document\<close>

text \<open>
  Modelled from the spec: the protocol-buffer schema is missing from the source. The
  spec gives the synchronizer as a tagged variant with exactly one active case,
  Centralized (synchronous flag, staleness, local-replication flag, destination) or
  Decentralized (spec tag, compressor tag, group id), absent until assigned. Writing a
  field of one member of the oneof makes that member the active one, starting from its
  default value when it was not active. The compressor names are those listed in the
  docstring of \<^verbatim>\<open>sample_ar_compressor\<close>; looking up another name raises ValueError.
\<close>

datatype Spec = AUTO | NCCL | RING

datatype Compressor =
  NoneCompressor | HorovodCompressor | HorovodCompressorEF | PowerSGDCompressor

definition Compressor_Value :: "string \<Rightarrow> error + Compressor" where
  "Compressor_Value s =
     (if s = ''NoneCompressor'' then Inr NoneCompressor
      else if s = ''HorovodCompressor'' then Inr HorovodCompressor
      else if s = ''HorovodCompressorEF'' then Inr HorovodCompressorEF
      else if s = ''PowerSGDCompressor'' then Inr PowerSGDCompressor
      else Inl ValueError)"

record PSSynchronizer =
  reduction_destination :: string
  local_replication :: bool
  sync :: bool
  staleness :: int

record AllReduceSynchronizer =
  spec :: Spec
  compressor :: Compressor
  group :: int

datatype synchronizer = PS PSSynchronizer | AR AllReduceSynchronizer

definition default_PS :: PSSynchronizer where
  "default_PS = \<lparr> reduction_destination = [], local_replication = False,
                  sync = False, staleness = 0 \<rparr>"

definition default_AR :: AllReduceSynchronizer where
  "default_AR = \<lparr> spec = AUTO, compressor = NoneCompressor, group = 0 \<rparr>"

definition mutable_PS :: "synchronizer option \<Rightarrow> PSSynchronizer" where
  "mutable_PS s = (case s of Some (PS p) \<Rightarrow> p | _ \<Rightarrow> default_PS)"

definition mutable_AR :: "synchronizer option \<Rightarrow> AllReduceSynchronizer" where
  "mutable_AR s = (case s of Some (AR a) \<Rightarrow> a | _ \<Rightarrow> default_AR)"

text \<open>
  A leaf record carries a name and the oneof; a node of the document adds the partition
  descriptor and the shard records. The code reads and writes only the name and the
  oneof of a shard record, so shard records are leaf records. \<open>synchronizer l = None\<close>
  is \<^verbatim>\<open>WhichOneof('synchronizer')\<close> returning \<^verbatim>\<open>None\<close>.
\<close>

record leaf =
  var_name :: string
  synchronizer :: "synchronizer option"

record Node = leaf +
  partitioner :: "int list"
  part_config :: "leaf list"

record Strategy =
  strategy_replicas :: "string list"
  strategy_node_config :: "Node list"

definition new_part :: "string \<Rightarrow> leaf" where
  "new_part n = \<lparr> var_name = n, synchronizer = None \<rparr>"

definition new_node :: "string \<Rightarrow> Node" where
  "new_node n = \<lparr> var_name = n, synchronizer = None, partitioner = [], part_config = [] \<rparr>"

subsection \<open>Values a partition decision can return\<close>

text \<open>
  \<^verbatim>\<open>sample_if_partition\<close> returns either a Python bool or, on its first branch, the
  list \<^verbatim>\<open>space['maybe_partition']\<close> itself; \<open>truthy\<close> is the truth value that
  \<^verbatim>\<open>if not maybe_partition\<close> in \<^verbatim>\<open>build\<close> tests: a list is true when it is not empty.
\<close>

datatype pyval = PyBool bool | PyList "bool list"

fun truthy :: "pyval \<Rightarrow> bool" where
  "truthy (PyBool b) = b"
| "truthy (PyList xs) = (xs \<noteq> [])"

subsection \<open>Partition decision stage\<close>

text \<open>
  \<^verbatim>\<open>sample_if_partition\<close>, branch by branch. The first branch returns the list, not
  its element. The read of \<^verbatim>\<open>var_helper.partitionable_axis\<close> raises AttributeError on
  an object without that attribute. The \<^verbatim>\<open>assert\<close> is an AssertionError.
\<close>

definition sample_if_partition ::
  "VariableHelper \<Rightarrow> resource_spec \<Rightarrow> space \<Rightarrow> heuristics \<Rightarrow> rng \<Rightarrow> error + (pyval \<times> rng)" where
  "sample_if_partition var_helper rs sp h g =
     (let reduction_device_names = map fst (cpu_devices rs) in
      if length (maybe_partition sp) = 1 then Inr (PyList (maybe_partition sp), g)
      else if enable_single_node_no_partition h \<and> length reduction_device_names \<le> 1
        then Inr (PyBool False, g)
      else
        case partitionable_axis var_helper of
          None \<Rightarrow> Inl AttributeError
        | Some axes \<Rightarrow>
            if axes = [] then Inr (PyBool False, g)
            else if space_partitionable_axis sp \<noteq> []
                    \<and> length (filter (\<lambda>a. a \<in> set (space_partitionable_axis sp)) (remdups axes)) < 1
              then Inr (PyBool False, g)
            else
              let lb = fst (maybe_partition_bounds h);
                  ub = snd (maybe_partition_bounds h)
              in
                if byte_size var_helper \<le> lb then Inr (PyBool False, g)
                else if byte_size var_helper \<ge> ub then Inr (PyBool True, g)
                else if length (maybe_partition sp) \<noteq> 2 then Inl AssertionError
                else if maybe_partition_by_size h then
                  (case binary_sample ((byte_size var_helper - lb) / (ub - lb)) g of
                     Inl e \<Rightarrow> Inl e
                   | Inr (b, g1) \<Rightarrow> Inr (PyBool b, g1))
                else
                  (case uniform_sample_by_choices (maybe_partition sp) g of
                     Inl e \<Rightarrow> Inl e
                   | Inr (b, g1) \<Rightarrow> Inr (PyBool b, g1)))"

subsection \<open>Local replication and compressor\<close>

definition sample_if_local_replication ::
  "bool list \<Rightarrow> resource_spec \<Rightarrow> rng \<Rightarrow> error + (bool \<times> rng)" where
  "sample_if_local_replication local_replication_space rs g =
     (if num_gpus rs \<le> num_cpus rs then Inr (False, g)
      else uniform_sample_by_choices local_replication_space g)"

definition sample_ar_compressor :: "string list \<Rightarrow> rng \<Rightarrow> error + (string \<times> rng)" where
  "sample_ar_compressor compressor_space g = uniform_sample_by_choices compressor_space g"

subsection \<open>Synchronizer sampling stage\<close>

text \<open>
  The body that \<^verbatim>\<open>sample_var_synchronizer\<close> and the loop of
  \<^verbatim>\<open>sample_parts_synchronizers\<close> both run on a record once the synchronizer type is
  known: the string \<^verbatim>\<open>'PS'\<close> fills the centralized member, any other string the
  decentralized one.
\<close>

definition fill_synchronizer ::
  "string \<Rightarrow> 'a leaf_scheme \<Rightarrow> resource_spec \<Rightarrow> space \<Rightarrow> rng \<Rightarrow> error + ('a leaf_scheme \<times> rng)" where
  "fill_synchronizer synchronizer_type node rs sp g =
     (if synchronizer_type = ''PS'' then
        (case sample_if_local_replication (space_local_replication sp) rs g of
           Inl e \<Rightarrow> Inl e
         | Inr (b, g1) \<Rightarrow>
             Inr (node\<lparr>synchronizer :=
                    Some (PS ((mutable_PS (synchronizer node))
                      \<lparr>sync := True, staleness := 0, local_replication := b\<rparr>))\<rparr>, g1))
      else
        (case sample_ar_compressor (space_compressor sp) g of
           Inl e \<Rightarrow> Inl e
         | Inr (c, g1) \<Rightarrow>
             (case Compressor_Value c of
                Inl e \<Rightarrow> Inl e
              | Inr cv \<Rightarrow>
                  Inr (node\<lparr>synchronizer :=
                         Some (AR ((mutable_AR (synchronizer node))
                           \<lparr>spec := AUTO, compressor := cv\<rparr>))\<rparr>, g1))))"

definition sample_var_synchronizer ::
  "'a leaf_scheme \<Rightarrow> VariableHelper \<Rightarrow> resource_spec \<Rightarrow> space \<Rightarrow> rng
     \<Rightarrow> error + ('a leaf_scheme \<times> rng)" where
  "sample_var_synchronizer node var_helper rs sp g =
     (case (if var_type var_helper = SPARSE then Inr (''PS'', g)
            else uniform_sample_by_choices (synchronizer_types sp) g) of
        Inl e \<Rightarrow> Inl e
      | Inr (synchronizer_type, g1) \<Rightarrow> fill_synchronizer synchronizer_type node rs sp g1)"

text \<open>The list comprehension that draws one synchronizer type per shard.\<close>

fun sample_types :: "nat \<Rightarrow> string list \<Rightarrow> rng \<Rightarrow> error + (string list \<times> rng)" where
  "sample_types 0 choices g = Inr ([], g)"
| "sample_types (Suc n) choices g =
     (case uniform_sample_by_choices choices g of
        Inl e \<Rightarrow> Inl e
      | Inr (t, g1) \<Rightarrow>
          (case sample_types n choices g1 of
             Inl e \<Rightarrow> Inl e
           | Inr (ts, g2) \<Rightarrow> Inr (t # ts, g2)))"

text \<open>The loop \<^verbatim>\<open>for i, part in enumerate(parts)\<close> over the shards and their types.\<close>

fun fill_parts ::
  "(leaf \<times> string) list \<Rightarrow> resource_spec \<Rightarrow> space \<Rightarrow> rng \<Rightarrow> error + (leaf list \<times> rng)" where
  "fill_parts [] rs sp g = Inr ([], g)"
| "fill_parts ((part, t) # rest) rs sp g =
     (case fill_synchronizer t part rs sp g of
        Inl e \<Rightarrow> Inl e
      | Inr (part', g1) \<Rightarrow>
          (case fill_parts rest rs sp g1 of
             Inl e \<Rightarrow> Inl e
           | Inr (parts', g2) \<Rightarrow> Inr (part' # parts', g2)))"

definition sample_parts_synchronizers ::
  "leaf list \<Rightarrow> VariableHelper \<Rightarrow> resource_spec \<Rightarrow> space \<Rightarrow> heuristics \<Rightarrow> rng
     \<Rightarrow> error + (leaf list \<times> rng)" where
  "sample_parts_synchronizers parts var_helper rs sp h g =
     (case (if var_type var_helper = SPARSE then Inr (replicate (length parts) ''PS'', g)
            else if same_synchronizer_for_parts h then
              (case uniform_sample_by_choices (synchronizer_types sp) g of
                 Inl e \<Rightarrow> Inl e
               | Inr (t, g1) \<Rightarrow> Inr (replicate (length parts) t, g1))
            else sample_types (length parts) (synchronizer_types sp) g) of
        Inl e \<Rightarrow> Inl e
      | Inr (types, g1) \<Rightarrow> fill_parts (zip parts types) rs sp g1)"

subsection \<open>Partition-config stage\<close>

text \<open>
  \<^verbatim>\<open>sample_partition_config\<close>. The object's axes are read through the attribute
  \<^verbatim>\<open>partitionable_axis\<close>. The iteration order of \<^verbatim>\<open>list(set(..) & set(..))\<close> is left
  open by Python; the common axes are listed in the order of the object's list.
  Subscripting the shape of a scalar (\<^verbatim>\<open>None\<close>) is a TypeError. On the lower bound
  the sentinel branch computes \<^verbatim>\<open>max(min_shards, 'num_nodes')\<close>, the maximum of an
  integer and a string, which Python 3 rejects with a TypeError.
\<close>

definition sample_partition_config ::
  "VariableHelper \<Rightarrow> resource_spec \<Rightarrow> space \<Rightarrow> heuristics \<Rightarrow> rng
     \<Rightarrow> error + (PartitionerConfig \<times> rng)" where
  "sample_partition_config var_helper rs sp h g =
     (case partitionable_axis var_helper of
        None \<Rightarrow> Inl AttributeError
      | Some axes \<Rightarrow>
          if \<not> length axes > 0 then Inl AssertionError
          else
            let valid_axis =
                  (if space_partitionable_axis sp \<noteq> []
                   then filter (\<lambda>a. a \<in> set (space_partitionable_axis sp)) (remdups axes)
                   else axes)
            in
            case uniform_sample_by_choices valid_axis g of
              Inl e \<Rightarrow> Inl e
            | Inr (partition_axis, g1) \<Rightarrow>
                let num_nodes = num_cpus rs in
                case shape var_helper of
                  None \<Rightarrow> Inl TypeError
                | Some shp \<Rightarrow>
                    if length shp \<le> partition_axis then Inl IndexError
                    else
                      let dim_size = shp ! partition_axis in
                      case (case snd (num_partition_bounds h) of
                              StrBound s \<Rightarrow>
                                if s = ''num_nodes'' then Inr (min dim_size num_nodes)
                                else Inl ValueError
                            | IntBound u \<Rightarrow> Inr (min dim_size u)
                            | OtherBound \<Rightarrow> Inl ValueError) of
                        Inl e \<Rightarrow> Inl e
                      | Inr max_shards \<Rightarrow>
                          case (case fst (num_partition_bounds h) of
                                  IntBound l \<Rightarrow> Inr (max 2 l)
                                | StrBound s \<Rightarrow>
                                    if s = ''num_nodes'' then Inl TypeError
                                    else Inl ValueError
                                | OtherBound \<Rightarrow> Inl ValueError) of
                            Inl e \<Rightarrow> Inl e
                          | Inr min_shards \<Rightarrow>
                              case uniform_sample_by_choices [min_shards .. max_shards] g1 of
                                Inl e \<Rightarrow> Inl e
                              | Inr (shards, g2) \<Rightarrow>
                                  let plist = (replicate (length shp) 1)[partition_axis := shards]
                                  in Inr (PartitionerConfig_init plist, g2))"

subsection \<open>Metadata views by record name, and the functions of other modules\<close>

text \<open>
  The dictionary \<^verbatim>\<open>self.helpers\<close> maps a record name to the view of the parameter or
  of the shard. Dictionaries keep insertion order and are association lists here;
  \<^verbatim>\<open>d[k] = v\<close> is \<open>AList.update k v d\<close>, \<^verbatim>\<open>d[k]\<close> is \<open>map_of d k\<close> with KeyError
  for \<open>None\<close>.
\<close>

datatype helper = VarHelper VariableHelper | ShardHelper PartHelper

type_synonym helpers = "(string \<times> helper) list"

type_synonym shards = "(string \<times> nat) list"

text \<open>
  The functions the sampler imports from modules that are not part of the file:
  \<^verbatim>\<open>get_op_name\<close>, the load balancers of \<^verbatim>\<open>ps_load_balancer\<close> (the last argument is
  \<^verbatim>\<open>sort_by_size\<close>) and the group assigners of \<^verbatim>\<open>ar_group_assigner\<close>. They are
  parameters of the model; each returns a dictionary from shard name to destination or
  group, or raises.
\<close>

record externals =
  get_op_name :: "string \<Rightarrow> string"
  greedy_load_balancer ::
    "shards \<Rightarrow> resource_spec \<Rightarrow> helpers \<Rightarrow> bool \<Rightarrow> error + (string \<times> string) list"
  christy_load_balancer ::
    "shards \<Rightarrow> resource_spec \<Rightarrow> helpers \<Rightarrow> bool \<Rightarrow> error + (string \<times> string) list"
  chunk_group_assigner :: "shards \<Rightarrow> int \<Rightarrow> error + (string \<times> int) list"
  christy_group_assigner :: "shards \<Rightarrow> helpers \<Rightarrow> int \<Rightarrow> error + (string \<times> int) list"
  ordered_balanced_group_assigner ::
    "shards \<Rightarrow> helpers \<Rightarrow> int \<Rightarrow> error + (string \<times> int) list"




definition with_rng :: "error + 'a \<Rightarrow> rng \<Rightarrow> error + ('a \<times> rng)" where
  "with_rng r g = (case r of Inl e \<Rightarrow> Inl e | Inr x \<Rightarrow> Inr (x, g))"

subsection \<open>Pooling the leaf records by synchronizer kind\<close>

text \<open>
  The first loop of \<^verbatim>\<open>sample_group_and_reduction_destinations\<close>. The state is
  \<^verbatim>\<open>(ps_shards, ar_shards, idx)\<close>. \<^verbatim>\<open>getattr(node, None)\<close> on a record without an
  active member is a TypeError; the decentralized member is the one with a
  \<^verbatim>\<open>compressor\<close> attribute.
\<close>

definition pool_leaf ::
  "'a leaf_scheme \<Rightarrow> shards \<times> shards \<times> nat \<Rightarrow> error + (shards \<times> shards \<times> nat)" where
  "pool_leaf l st =
     (case st of (ps_shards, ar_shards, idx) \<Rightarrow>
        (case synchronizer l of
           None \<Rightarrow> Inl TypeError
         | Some (AR a) \<Rightarrow> Inr (ps_shards, AList.update (var_name l) idx ar_shards, idx + 1)
         | Some (PS p) \<Rightarrow> Inr (AList.update (var_name l) idx ps_shards, ar_shards, idx + 1)))"

fun pool_parts ::
  "leaf list \<Rightarrow> shards \<times> shards \<times> nat \<Rightarrow> error + (shards \<times> shards \<times> nat)" where
  "pool_parts [] st = Inr st"
| "pool_parts (part # rest) st =
     (case pool_leaf part st of Inl e \<Rightarrow> Inl e | Inr st' \<Rightarrow> pool_parts rest st')"

fun pool_nodes ::
  "Node list \<Rightarrow> shards \<times> shards \<times> nat \<Rightarrow> error + (shards \<times> shards \<times> nat)" where
  "pool_nodes [] st = Inr st"
| "pool_nodes (node # rest) st =
     (case (if partitioner node \<noteq> [] then pool_parts (part_config node) st
            else pool_leaf node st) of
        Inl e \<Rightarrow> Inl e
      | Inr st' \<Rightarrow> pool_nodes rest st')"

text \<open>
  The loop \<^verbatim>\<open>for shard_name, (idx, ) in shards.items()\<close> that pairs every pooled name
  with its entry of the sampled dictionary.
\<close>

fun attach :: "shards \<Rightarrow> (string \<times> 'v) list \<Rightarrow> error + (string \<times> nat \<times> 'v) list" where
  "attach [] d = Inr []"
| "attach ((shard_name, idx) # rest) d =
     (case map_of d shard_name of
        None \<Rightarrow> Inl KeyError
      | Some v \<Rightarrow>
          (case attach rest d of
             Inl e \<Rightarrow> Inl e
           | Inr rest' \<Rightarrow> Inr ((shard_name, idx, v) # rest')))"

subsection \<open>Placement stage\<close>

definition assign_ps_leaf ::
  "'a leaf_scheme \<Rightarrow> (string \<times> nat \<times> string) list \<Rightarrow> error + 'a leaf_scheme" where
  "assign_ps_leaf l ps_shards =
     (case synchronizer l of
        None \<Rightarrow> Inl TypeError
      | Some (AR a) \<Rightarrow> Inr l
      | Some (PS p) \<Rightarrow>
          (case map_of ps_shards (var_name l) of
             None \<Rightarrow> Inl KeyError
           | Some (idx, d) \<Rightarrow>
               Inr (l\<lparr>synchronizer := Some (PS (p\<lparr>reduction_destination := d\<rparr>))\<rparr>)))"

definition assign_ps_node :: "Node \<Rightarrow> (string \<times> nat \<times> string) list \<Rightarrow> error + Node" where
  "assign_ps_node node ps_shards =
     (if partitioner node \<noteq> [] then
        (case collect (map (\<lambda>part. assign_ps_leaf part ps_shards) (part_config node)) of
           Inl e \<Rightarrow> Inl e
         | Inr parts \<Rightarrow> Inr (node\<lparr>part_config := parts\<rparr>))
      else assign_ps_leaf node ps_shards)"

definition assign_ps_reduction_destinations ::
  "Node list \<Rightarrow> (string \<times> nat \<times> string) list \<Rightarrow> error + Node list" where
  "assign_ps_reduction_destinations node_config ps_shards =
     collect (map (\<lambda>node. assign_ps_node node ps_shards) node_config)"

text \<open>The loop that draws one device per pooled name when no load balancer is set.\<close>

fun sample_destinations ::
  "string list \<Rightarrow> string list \<Rightarrow> (string \<times> string) list \<Rightarrow> rng
     \<Rightarrow> error + ((string \<times> string) list \<times> rng)" where
  "sample_destinations [] devs destinations g = Inr (destinations, g)"
| "sample_destinations (shard_name # rest) devs destinations g =
     (case uniform_sample_by_choices devs g of
        Inl e \<Rightarrow> Inl e
      | Inr (d, g1) \<Rightarrow>
          sample_destinations rest devs (AList.update shard_name d destinations) g1)"

definition sample_ps_reduction_destinations ::
  "externals \<Rightarrow> Node list \<Rightarrow> shards \<Rightarrow> resource_spec \<Rightarrow> helpers \<Rightarrow> heuristics \<Rightarrow> rng
     \<Rightarrow> error + (Node list \<times> rng)" where
  "sample_ps_reduction_destinations ext node_config ps_shards rs hs h g =
     (let load_balancer = ps_load_balancer h;
          reduction_device_names = map fst (cpu_devices rs)
      in
      case (if load_balancer = None \<or> load_balancer = Some [] then
              sample_destinations (map fst ps_shards) reduction_device_names [] g
            else if load_balancer = Some ''greedy'' then
              with_rng (greedy_load_balancer ext ps_shards rs hs False) g
            else if load_balancer = Some ''christy'' then
              with_rng (christy_load_balancer ext ps_shards rs hs False) g
            else if load_balancer = Some ''sorted_christy'' then
              with_rng (christy_load_balancer ext ps_shards rs hs True) g
            else if load_balancer = Some ''sorted_greedy'' then
              with_rng (greedy_load_balancer ext ps_shards rs hs True) g
            else Inl ValueError) of
        Inl e \<Rightarrow> Inl e
      | Inr (destinations, g1) \<Rightarrow>
          (case attach ps_shards destinations of
             Inl e \<Rightarrow> Inl e
           | Inr ps_shards' \<Rightarrow>
               (case assign_ps_reduction_destinations node_config ps_shards' of
                  Inl e \<Rightarrow> Inl e
                | Inr node_config' \<Rightarrow> Inr (node_config', g1))))"

subsection \<open>Grouping stage\<close>

definition sample_num_ar_groups :: "shards \<Rightarrow> int \<Rightarrow> int \<Rightarrow> rng \<Rightarrow> error + (int \<times> rng)" where
  "sample_num_ar_groups ar_shards lb ub g =
     (let min_num_group = max 1 lb;
          max_num_group = min (int (length ar_shards)) ub
      in uniform_sample_by_choices [min_num_group .. max_num_group] g)"

definition sample_chunk_size :: "nat \<Rightarrow> rng \<Rightarrow> error + (int \<times> rng)" where
  "sample_chunk_size num_ar_shards g = uniform_sample_by_choices [1 .. int num_ar_shards] g"

text \<open>
  The first statement of \<^verbatim>\<open>sample_ar_groups\<close>, which resolves the value
  \<^verbatim>\<open>chunk_size_or_num_group\<close>.
\<close>

definition chunk_size_or_num_group :: "heuristics \<Rightarrow> shards \<Rightarrow> rng \<Rightarrow> error + (int \<times> rng)" where
  "chunk_size_or_num_group h ar_shards g =
     (if merge_scheme h = Some ''by_chunk'' then
        (case chunk_size h of
           None \<Rightarrow> sample_chunk_size (length ar_shards) g
         | Some c \<Rightarrow> if c > 0 then Inr (c, g) else sample_chunk_size (length ar_shards) g)
      else sample_num_ar_groups ar_shards (fst (num_group_bounds h))
             (snd (num_group_bounds h)) g)"

definition assign_ar_leaf ::
  "'a leaf_scheme \<Rightarrow> (string \<times> nat \<times> int) list \<Rightarrow> error + 'a leaf_scheme" where
  "assign_ar_leaf l ar_shards =
     (case synchronizer l of
        None \<Rightarrow> Inl TypeError
      | Some (PS p) \<Rightarrow> Inr l
      | Some (AR a) \<Rightarrow>
          (case map_of ar_shards (var_name l) of
             None \<Rightarrow> Inl KeyError
           | Some (idx, k) \<Rightarrow> Inr (l\<lparr>synchronizer := Some (AR (a\<lparr>group := k\<rparr>))\<rparr>)))"

definition assign_ar_node :: "Node \<Rightarrow> (string \<times> nat \<times> int) list \<Rightarrow> error + Node" where
  "assign_ar_node node ar_shards =
     (if partitioner node \<noteq> [] then
        (case collect (map (\<lambda>part. assign_ar_leaf part ar_shards) (part_config node)) of
           Inl e \<Rightarrow> Inl e
         | Inr parts \<Rightarrow> Inr (node\<lparr>part_config := parts\<rparr>))
      else assign_ar_leaf node ar_shards)"

definition assign_ar_group ::
  "Node list \<Rightarrow> (string \<times> nat \<times> int) list \<Rightarrow> error + Node list" where
  "assign_ar_group nodes ar_shards =
     collect (map (\<lambda>node. assign_ar_node node ar_shards) nodes)"

text \<open>
  \<^verbatim>\<open>sample_ar_groups\<close>. Under \<^verbatim>\<open>'random'\<close> and \<^verbatim>\<open>None\<close> the i-th pooled name gets the
  i-th entry of the sampled assignment (IndexError when there is none); the names of a
  dictionary are distinct, so the new dictionary is the list of these pairs.
\<close>

definition sample_ar_groups ::
  "externals \<Rightarrow> Node list \<Rightarrow> shards \<Rightarrow> helpers \<Rightarrow> heuristics \<Rightarrow> rng
     \<Rightarrow> error + (Node list \<times> rng)" where
  "sample_ar_groups ext nodes ar_shards hs h g =
     (let scheme = merge_scheme h in
      case chunk_size_or_num_group h ar_shards g of
        Inl e \<Rightarrow> Inl e
      | Inr (x, g1) \<Rightarrow>
          if \<not> x > 0 then Inl AssertionError
          else
            case (if scheme = Some ''random'' \<or> scheme = None then
                    (case sample_merge_group x (length ar_shards) g1 of
                       Inl e \<Rightarrow> Inl e
                     | Inr (tmp_assignments, g2) \<Rightarrow>
                         if length tmp_assignments < length ar_shards then Inl IndexError
                         else Inr (zip (map fst ar_shards) tmp_assignments, g2))
                  else if scheme = Some ''by_chunk'' then
                    with_rng (chunk_group_assigner ext ar_shards x) g1
                  else if scheme = Some ''christy'' then
                    with_rng (christy_group_assigner ext ar_shards hs x) g1
                  else if scheme = Some ''ordered_balanced'' then
                    with_rng (ordered_balanced_group_assigner ext ar_shards hs x) g1
                  else Inl ValueError) of
              Inl e \<Rightarrow> Inl e
            | Inr (group_assignments, g2) \<Rightarrow>
                (case attach ar_shards group_assignments of
                   Inl e \<Rightarrow> Inl e
                 | Inr ar_shards' \<Rightarrow>
                     (case assign_ar_group nodes ar_shards' of
                        Inl e \<Rightarrow> Inl e
                      | Inr nodes' \<Rightarrow> Inr (nodes', g2))))"

subsection \<open>Post-assignment of destinations and groups\<close>

definition sample_group_and_reduction_destinations ::
  "externals \<Rightarrow> Node list \<Rightarrow> resource_spec \<Rightarrow> helpers \<Rightarrow> heuristics \<Rightarrow> rng
     \<Rightarrow> error + (Node list \<times> rng)" where
  "sample_group_and_reduction_destinations ext nodes rs hs h g =
     (case pool_nodes nodes ([], [], 0) of
        Inl e \<Rightarrow> Inl e
      | Inr (ps_shards, ar_shards, idx) \<Rightarrow>
          (case (if length ps_shards > 0
                 then sample_ps_reduction_destinations ext nodes ps_shards rs hs h g
                 else Inr (nodes, g)) of
             Inl e \<Rightarrow> Inl e
           | Inr (nodes1, g1) \<Rightarrow>
               if length ar_shards > 0 then sample_ar_groups ext nodes1 ar_shards hs h g1
               else Inr (nodes1, g1)))"

subsection \<open>The sampler object and build\<close>

text \<open>
  The sampler object: its two configuration dictionaries and \<^verbatim>\<open>self.helpers\<close>. The
  constructor refuses a missing or empty dictionary (\<open>None\<close>) with a ValueError.
\<close>

record RandomStrategySampler =
  self_space :: space
  self_heuristics :: heuristics
  self_helpers :: helpers

definition RandomStrategySampler_init ::
  "space option \<Rightarrow> heuristics option \<Rightarrow> error + RandomStrategySampler" where
  "RandomStrategySampler_init sp h =
     (case sp of
        None \<Rightarrow> Inl ValueError
      | Some sp' \<Rightarrow>
          (case h of
             None \<Rightarrow> Inl ValueError
           | Some h' \<Rightarrow>
               Inr \<lparr> self_space = sp', self_heuristics = h', self_helpers = [] \<rparr>))"

definition reset :: "RandomStrategySampler \<Rightarrow> RandomStrategySampler" where
  "reset self = self\<lparr>self_helpers := []\<rparr>"

text \<open>Python's decimal rendering of a non-negative integer, for the shard names.\<close>

definition digit :: "nat \<Rightarrow> char" where
  "digit d = char_of (48 + d)"

function str_nat :: "nat \<Rightarrow> string" where
  "str_nat n = (if n < 10 then [digit n] else str_nat (n div 10) @ [digit (n mod 10)])"
  by pat_completeness auto
termination
  by (relation "measure id") auto

definition part_name :: "externals \<Rightarrow> string \<Rightarrow> nat \<Rightarrow> string" where
  "part_name ext n i = get_op_name ext n @ ''/part_'' @ str_nat i @ '':0''"

text \<open>
  The body of the loop over the variables in \<^verbatim>\<open>build\<close>. The helpers dictionary is
  written before the stage that may raise, so it is returned beside the result, also
  when the result is an exception. \<^verbatim>\<open>node.partitioner\<close> holds the descriptor's list.
\<close>

definition build_var ::
  "externals \<Rightarrow> space \<Rightarrow> heuristics \<Rightarrow> resource_spec \<Rightarrow> variable \<Rightarrow> helpers \<Rightarrow> rng
     \<Rightarrow> (error + (Node \<times> rng)) \<times> helpers" where
  "build_var ext sp h rs v hs g =
     (let var_helper = VariableHelper_init v;
          hs1 = AList.update (name v) (VarHelper var_helper) hs;
          node = new_node (name v)
      in
      case sample_if_partition var_helper rs sp h g of
        Inl e \<Rightarrow> (Inl e, hs1)
      | Inr (maybe, g1) \<Rightarrow>
          if \<not> truthy maybe then
            (case sample_var_synchronizer node var_helper rs sp g1 of
               Inl e \<Rightarrow> (Inl e, hs1)
             | Inr (node', g2) \<Rightarrow> (Inr (node', g2), hs1))
          else
            (case sample_partition_config var_helper rs sp h g1 of
               Inl e \<Rightarrow> (Inl e, hs1)
             | Inr (c, g2) \<Rightarrow>
                 let names = map (part_name ext (name v)) [0 ..< nat (num_shards c)];
                     parts = map new_part names;
                     hs2 = fold (\<lambda>(n, p). AList.update n (ShardHelper p))
                             (zip names (part_helpers v c)) hs1
                 in
                 (case sample_parts_synchronizers parts var_helper rs sp h g2 of
                    Inl e \<Rightarrow> (Inl e, hs2)
                  | Inr (parts', g3) \<Rightarrow>
                      (Inr (node\<lparr>partitioner := partition_list c, part_config := parts'\<rparr>, g3),
                       hs2))))"

fun build_vars ::
  "externals \<Rightarrow> space \<Rightarrow> heuristics \<Rightarrow> resource_spec \<Rightarrow> variable list \<Rightarrow> helpers
     \<Rightarrow> Node list \<Rightarrow> rng \<Rightarrow> (error + (Node list \<times> rng)) \<times> helpers" where
  "build_vars ext sp h rs [] hs nodes g = (Inr (nodes, g), hs)"
| "build_vars ext sp h rs (v # vs) hs nodes g =
     (case build_var ext sp h rs v hs g of
        (Inl e, hs1) \<Rightarrow> (Inl e, hs1)
      | (Inr (node, g1), hs1) \<Rightarrow> build_vars ext sp h rs vs hs1 (nodes @ [node]) g1)"

text \<open>
  \<^verbatim>\<open>RandomStrategySampler.build\<close>: \<open>variables\<close> is
  \<^verbatim>\<open>graph_item.trainable_var_op_to_var.values()\<close>. The result is the returned strategy
  or the exception raised, beside the sampler object as the call leaves it:
  \<^verbatim>\<open>self._reset()\<close> is the last statement before \<^verbatim>\<open>return\<close>, and no handler runs it
  when a statement before it raises.
\<close>

definition build ::
  "externals \<Rightarrow> RandomStrategySampler \<Rightarrow> variable list \<Rightarrow> resource_spec \<Rightarrow> rng
     \<Rightarrow> (error + (Strategy \<times> rng)) \<times> RandomStrategySampler" where
  "build ext self variables rs g =
     (let reps = map fst (gpu_devices rs) in
      case build_vars ext (self_space self) (self_heuristics self) rs variables
             (self_helpers self) [] g of
        (Inl e, hs) \<Rightarrow> (Inl e, self\<lparr>self_helpers := hs\<rparr>)
      | (Inr (nodes, g1), hs) \<Rightarrow>
          (case sample_group_and_reduction_destinations ext nodes rs hs
                  (self_heuristics self) g1 of
             Inl e \<Rightarrow> (Inl e, self\<lparr>self_helpers := hs\<rparr>)
           | Inr (nodes', g2) \<Rightarrow>
               (Inr (\<lparr> strategy_replicas = reps, strategy_node_config = nodes' \<rparr>, g2),
                reset self)))"

text \<open>
  The leaf records of a node list: an unsharded node is a leaf record itself (its name
  and its oneof), a sharded node contributes its shard records.
\<close>

definition leaf_of :: "'a leaf_scheme \<Rightarrow> leaf" where
  "leaf_of l = \<lparr> var_name = var_name l, synchronizer = synchronizer l \<rparr>"

definition leaves :: "Node list \<Rightarrow> leaf list" where
  "leaves nodes =
     concat (map (\<lambda>node. if partitioner node \<noteq> [] then part_config node
                          else [leaf_of node]) nodes)"


subsection \<open>The default configuration\<close>

text \<open>
  \<^verbatim>\<open>default_space\<close> and \<^verbatim>\<open>default_heuristics\<close> as the file ends with them. The
  constant \<^verbatim>\<open>MAX_INT32\<close> comes from \<^verbatim>\<open>autodist.const\<close> and is a parameter.
\<close>

definition default_space :: space where
  "default_space =
     \<lparr> synchronizer_types = [''PS'', ''AR''],
       maybe_partition = [True, False],
       space_compressor = [''HorovodCompressor'', ''NoneCompressor'', ''HorovodCompressorEF''],
       space_local_replication = [False],
       space_partitionable_axis = [] \<rparr>"

definition default_heuristics :: "int \<Rightarrow> heuristics" where
  "default_heuristics MAX_INT32 =
     \<lparr> ps_load_balancer = None,
       merge_scheme = None,
       chunk_size = Some (- 1),
       num_group_bounds = (- 1, MAX_INT32),
       maybe_partition_bounds = (0, real_of_int MAX_INT32),
       maybe_partition_by_size = False,
       num_partition_bounds = (IntBound 2, IntBound MAX_INT32),
       enable_single_node_no_partition = False,
       same_synchronizer_for_parts = False \<rparr>"

subsection \<open>An instance of the functions of the other modules\<close>

text \<open>
  Modelled from the spec: the byte size a load balancer reads from the view stored under
  a record name (\<^verbatim>\<open>helpers[name].byte_size\<close>); a missing name is a KeyError.
\<close>

definition helper_byte_size :: "helpers \<Rightarrow> string \<Rightarrow> error + real" where
  "helper_byte_size hs n =
     (case map_of hs n of
        None \<Rightarrow> Inl KeyError
      | Some (VarHelper vh) \<Rightarrow> Inr (byte_size vh)
      | Some (ShardHelper p) \<Rightarrow> PartHelper_byte_size p)"

text \<open>
  Modelled from the spec: the greedy load balancer is missing from the source. The spec
  has it process the records in order (optionally sorted first, descending by byte
  size), always assigning the next record to the device that holds the least cumulative
  assigned byte size, ties broken by device list order. \<open>least_loaded\<close> scans the loads
  in device order and keeps the first minimum.
\<close>

fun least_loaded :: "string \<times> real \<Rightarrow> (string \<times> real) list \<Rightarrow> string \<times> real" where
  "least_loaded best [] = best"
| "least_loaded best (x # xs) =
     (if snd x < snd best then least_loaded x xs else least_loaded best xs)"

fun greedy_place ::
  "(string \<times> real) list \<Rightarrow> (string \<times> real) list \<Rightarrow> error + (string \<times> string) list" where
  "greedy_place [] loads = Inr []"
| "greedy_place ((n, sz) # rest) loads =
     (case loads of
        [] \<Rightarrow> Inl ConfigurationError
      | l # ls \<Rightarrow>
          (case least_loaded l ls of
             (d, w) \<Rightarrow>
               (case greedy_place rest (AList.update d (w + sz) loads) of
                  Inl e \<Rightarrow> Inl e
                | Inr placed \<Rightarrow> Inr ((n, d) # placed))))"

definition greedy_load_balancer_spec ::
  "shards \<Rightarrow> resource_spec \<Rightarrow> helpers \<Rightarrow> bool \<Rightarrow> error + (string \<times> string) list" where
  "greedy_load_balancer_spec ps_shards rs hs sort_by_size =
     (case collect (map (\<lambda>(n, idx). case helper_byte_size hs n of
                                          Inl e \<Rightarrow> Inl e
                                        | Inr sz \<Rightarrow> Inr (n, sz)) ps_shards) of
        Inl e \<Rightarrow> Inl e
      | Inr sized \<Rightarrow>
          greedy_place (if sort_by_size then sort_key (\<lambda>(n, sz). - sz) sized else sized)
            (map (\<lambda>(d, dev). (d, 0)) (cpu_devices rs)))"

text \<open>
  Modelled from the spec: the chunk assigner is missing from the source. The spec has it
  walk the records in input order and place consecutive chunk-sized runs into successive
  group ids, the last group possibly shorter (five records with chunk size 2 give
  \<open>[0, 0, 1, 1, 2]\<close>). A chunk size that is not positive is refused.
\<close>

definition chunk_group_assigner_spec :: "shards \<Rightarrow> int \<Rightarrow> error + (string \<times> int) list" where
  "chunk_group_assigner_spec ar_shards x =
     (if x \<le> 0 then Inl ValueError
      else Inr (map (\<lambda>(j, (n, idx)). (n, int j div x)) (enumerate 0 ar_shards)))"

text \<open>
  The instance used in the examples. The spec leaves the heuristics \<^verbatim>\<open>'christy'\<close> and
  \<^verbatim>\<open>'ordered_balanced'\<close> open; the instance has no implementation of them and raises.
  \<^verbatim>\<open>get_op_name\<close> drops the output suffix of a tensor name, from the first colon on.
\<close>

definition reference_externals :: externals where
  "reference_externals =
     \<lparr> get_op_name = takeWhile (\<lambda>c. c \<noteq> CHR '':''),
       greedy_load_balancer = greedy_load_balancer_spec,
       christy_load_balancer = (\<lambda>ps rs hs srt. Inl NotImplementedError),
       chunk_group_assigner = chunk_group_assigner_spec,
       christy_group_assigner = (\<lambda>ar hs x. Inl NotImplementedError),
       ordered_balanced_group_assigner = (\<lambda>ar hs x. Inl NotImplementedError) \<rparr>"

subsection \<open>An example cluster, sampler and model\<close>

text \<open>
  One machine with one aggregation device and two accelerators; the default space and
  heuristics with \<open>enable_single_node_no_partition\<close> switched on, the greedy load
  balancer and chunk-based grouping; an embedding table with a sparse gradient and a
  dense weight matrix.
\<close>

definition example_cluster :: resource_spec where
  "example_cluster =
     \<lparr> cpu_devices = [(''node0:CPU:0'', ''cpu'')],
       gpu_devices = [(''node0:GPU:0'', ''gpu''), (''node0:GPU:1'', ''gpu'')],
       num_cpus = 1, num_gpus = 2 \<rparr>"

definition example_sampler :: RandomStrategySampler where
  "example_sampler =
     \<lparr> self_space = default_space,
       self_heuristics = (default_heuristics 2147483647)
         \<lparr> ps_load_balancer := Some ''greedy'', merge_scheme := Some ''by_chunk'',
           enable_single_node_no_partition := True \<rparr>,
       self_helpers = [] \<rparr>"

definition example_variables :: "variable list" where
  "example_variables =
     [\<lparr> name = ''emb:0'', grad_is_tensor = False, consumer_op_types = [''ResourceGather''],
        initial_value_shape = [100, 8], byte_size_load = 3200 \<rparr>,
      \<lparr> name = ''w:0'', grad_is_tensor = True, consumer_op_types = [''MatMul''],
        initial_value_shape = [8, 4], byte_size_load = 128 \<rparr>]"



subsection \<open>What the post-assignment stage samples and what it writes\<close>

text \<open>
  The dictionary of destinations that \<^verbatim>\<open>sample_ps_reduction_destinations\<close> obtains
  before it writes anything back (the chain over \<^verbatim>\<open>load_balancer\<close>), and the dictionary
  of groups that \<^verbatim>\<open>sample_ar_groups\<close> obtains for the resolved value \<open>x\<close> (the chain
  over \<^verbatim>\<open>merge_scheme\<close>), each with the random source as it is left. Both repeat the
  expressions of the two functions, so that a statement can name what a run sampled.
\<close>

definition sampled_destinations ::
  "externals \<Rightarrow> heuristics \<Rightarrow> shards \<Rightarrow> resource_spec \<Rightarrow> helpers \<Rightarrow> rng
     \<Rightarrow> error + ((string \<times> string) list \<times> rng)" where
  "sampled_destinations ext h ps_shards rs hs g =
     (let load_balancer = ps_load_balancer h;
          reduction_device_names = map fst (cpu_devices rs)
      in
      if load_balancer = None \<or> load_balancer = Some [] then
        sample_destinations (map fst ps_shards) reduction_device_names [] g
      else if load_balancer = Some ''greedy'' then
        with_rng (greedy_load_balancer ext ps_shards rs hs False) g
      else if load_balancer = Some ''christy'' then
        with_rng (christy_load_balancer ext ps_shards rs hs False) g
      else if load_balancer = Some ''sorted_christy'' then
        with_rng (christy_load_balancer ext ps_shards rs hs True) g
      else if load_balancer = Some ''sorted_greedy'' then
        with_rng (greedy_load_balancer ext ps_shards rs hs True) g
      else Inl ValueError)"

definition sampled_groups ::
  "externals \<Rightarrow> heuristics \<Rightarrow> shards \<Rightarrow> helpers \<Rightarrow> int \<Rightarrow> rng
     \<Rightarrow> error + ((string \<times> int) list \<times> rng)" where
  "sampled_groups ext h ar_shards hs x g =
     (let scheme = merge_scheme h in
      if scheme = Some ''random'' \<or> scheme = None then
        (case sample_merge_group x (length ar_shards) g of
           Inl e \<Rightarrow> Inl e
         | Inr (tmp_assignments, g2) \<Rightarrow>
             if length tmp_assignments < length ar_shards then Inl IndexError
             else Inr (zip (map fst ar_shards) tmp_assignments, g2))
      else if scheme = Some ''by_chunk'' then
        with_rng (chunk_group_assigner ext ar_shards x) g
      else if scheme = Some ''christy'' then
        with_rng (christy_group_assigner ext ar_shards hs x) g
      else if scheme = Some ''ordered_balanced'' then
        with_rng (ordered_balanced_group_assigner ext ar_shards hs x) g
      else Inl ValueError)"

text \<open>
  Two node lists are related when they have the same sharding and their leaf records
  are related one by one, in order.
\<close>

definition node_rel :: "(leaf \<Rightarrow> leaf \<Rightarrow> bool) \<Rightarrow> Node \<Rightarrow> Node \<Rightarrow> bool" where
  "node_rel R n n' =
     (partitioner n = partitioner n'
      \<and> (if partitioner n \<noteq> [] then list_all2 R (part_config n) (part_config n')
         else R (leaf_of n) (leaf_of n')))"

definition pooled :: "shards \<Rightarrow> shards \<Rightarrow> leaf \<Rightarrow> bool" where
  "pooled ps ar l =
     (case synchronizer l of
        None \<Rightarrow> False
      | Some (PS p) \<Rightarrow> var_name l \<in> fst ` set ps
      | Some (AR a) \<Rightarrow> var_name l \<in> fst ` set ar)"

text \<open>
  What the write-back of a dictionary of destinations \<open>md\<close> does to a leaf record, and
  what the write-back of a dictionary of groups \<open>mg\<close> does; \<open>assigned_leaf\<close> is the two
  in a row: the record keeps its name and its active member, a centralized record gets
  the destination recorded under its name and nothing else changes in it, a
  decentralized record gets the group recorded under its name and nothing else changes.
\<close>

definition ps_step :: "(string \<rightharpoonup> string) \<Rightarrow> leaf \<Rightarrow> leaf \<Rightarrow> bool" where
  "ps_step md l l' =
     (var_name l' = var_name l
      \<and> (case synchronizer l of
           None \<Rightarrow> False
         | Some (AR a) \<Rightarrow> synchronizer l' = Some (AR a)
         | Some (PS p) \<Rightarrow>
             (\<exists>d. md (var_name l) = Some d
                  \<and> synchronizer l' = Some (PS (p\<lparr>reduction_destination := d\<rparr>)))))"

definition ar_step :: "(string \<rightharpoonup> int) \<Rightarrow> leaf \<Rightarrow> leaf \<Rightarrow> bool" where
  "ar_step mg l l' =
     (var_name l' = var_name l
      \<and> (case synchronizer l of
           None \<Rightarrow> False
         | Some (PS p) \<Rightarrow> synchronizer l' = Some (PS p)
         | Some (AR a) \<Rightarrow>
             (\<exists>k. mg (var_name l) = Some k
                  \<and> synchronizer l' = Some (AR (a\<lparr>group := k\<rparr>)))))"

definition assigned_leaf ::
  "(string \<rightharpoonup> string) \<Rightarrow> (string \<rightharpoonup> int) \<Rightarrow> leaf \<Rightarrow> leaf \<Rightarrow> bool" where
  "assigned_leaf md mg l l' =
     (var_name l' = var_name l
      \<and> (case synchronizer l of
           None \<Rightarrow> False
         | Some (PS p) \<Rightarrow>
             (\<exists>d. md (var_name l) = Some d
                  \<and> synchronizer l' = Some (PS (p\<lparr>reduction_destination := d\<rparr>)))
         | Some (AR a) \<Rightarrow>
             (\<exists>k. mg (var_name l) = Some k
                  \<and> synchronizer l' = Some (AR (a\<lparr>group := k\<rparr>)))))"


text \<open>
  What the local-replication rule asks of a leaf record: a centralized record has the
  flag \<open>False\<close> when the accelerators are no more than the aggregation-compute devices,
  and otherwise a flag taken from the option set of the space.
\<close>

definition flag_ok :: "resource_spec \<Rightarrow> space \<Rightarrow> leaf \<Rightarrow> bool" where
  "flag_ok rs sp l =
     (case synchronizer l of
        Some (PS p) \<Rightarrow>
          (if num_gpus rs \<le> num_cpus rs then local_replication p = False
           else local_replication p \<in> set (space_local_replication sp))
      | _ \<Rightarrow> True)"

section \<open>Properties\<close>

subsection \<open>Shard shapes and byte sizes\<close>

lemma collect_map_Inr: "collect (map (\<lambda>x. Inr (f x)) xs) = Inr (map f xs)"
  by (induction xs) simp_all

lemma extras_count:
  fixes E n :: int
  assumes "0 < n"
  shows "(\<Sum>i = 0..<nat n. (if int i < E mod n then 1 else 0 :: int)) = E mod n"
proof -
  have r: "0 \<le> E mod n" "E mod n < n" using assms by simp_all
  have "{i \<in> {0..<nat n}. int i < E mod n} = {0..<nat (E mod n)}"
    using r by auto
  moreover have "(\<Sum>i = 0..<nat n. (if int i < E mod n then 1 else 0 :: int))
        = int (card {i \<in> {0..<nat n}. int i < E mod n})"
    by (simp add: sum.If_cases Int_def)
  ultimately show ?thesis using r by simp
qed

lemma extent_sum:
  fixes E n :: int
  assumes "0 < n"
  shows "(\<Sum>i = 0..<nat n. E div n + (if int i < E mod n then 1 else 0)) = E"
proof -
  have "(\<Sum>i = 0..<nat n. E div n + (if int i < E mod n then 1 else 0))
      = (\<Sum>i = 0..<nat n. E div n) + (\<Sum>i = 0..<nat n. (if int i < E mod n then 1 else 0))"
    by (rule sum.distrib)
  also have "\<dots> = n * (E div n) + E mod n"
    using assms by (simp add: extras_count)
  finally show ?thesis by simp
qed

lemma shard_shape_eq:
  assumes "axis c < length (initial_value_shape v)" and "num_shards c \<noteq> 0"
  shows "PartHelper_shape \<lparr> part_idx = i, part_var = v, pc = c \<rparr>
        = Inr ((initial_value_shape v)[axis c :=
                 initial_value_shape v ! axis c div num_shards c
                 + (if i < initial_value_shape v ! axis c mod num_shards c then 1 else 0)])"
  using assms by (simp add: PartHelper_shape_def Let_def)


lemma sum_list_upt_sum: "sum_list (map f [0..<m]) = (\<Sum>i = 0..<m. f i)"
  by (simp add: interv_sum_list_conv_sum_set_nat)

text \<open>
  C5. A parameter sharded into \<open>num_shards\<close> pieces (at least one) along an axis of
  its shape whose extent \<open>E\<close> is at least \<open>num_shards\<close>: every shard view returns a
  shape and a byte size; shard \<open>i\<close> has extent \<open>E div num_shards\<close> on the axis, plus one
  for the first \<open>E mod num_shards\<close> shards, and the parent's extent on every other axis;
  the extents on the axis sum to \<open>E\<close>; the byte size of shard \<open>i\<close> is the parent's byte
  size times the shard's extent over \<open>E\<close>, and the byte sizes sum to the parent's byte
  size (floats idealised as reals, so up to floating rounding).
\<close>

theorem shard_shapes_and_sizes:
  assumes ax: "axis c < length (initial_value_shape v)"
    and pos: "0 < num_shards c"
    and le: "num_shards c \<le> initial_value_shape v ! axis c"
  shows "\<exists>shapes sizes.
      collect (map PartHelper_shape (part_helpers v c)) = Inr shapes
    \<and> collect (map PartHelper_byte_size (part_helpers v c)) = Inr sizes
    \<and> length shapes = nat (num_shards c) \<and> length sizes = nat (num_shards c)
    \<and> (\<forall>i < nat (num_shards c).
          shapes ! i = (initial_value_shape v)[axis c :=
             initial_value_shape v ! axis c div num_shards c
             + (if int i < initial_value_shape v ! axis c mod num_shards c then 1 else 0)]
        \<and> (\<forall>j < length (initial_value_shape v).
              j \<noteq> axis c \<longrightarrow> shapes ! i ! j = initial_value_shape v ! j)
        \<and> sizes ! i = byte_size_load v * real_of_int (shapes ! i ! axis c)
                          / real_of_int (initial_value_shape v ! axis c))
    \<and> sum_list (map (\<lambda>s. s ! axis c) shapes) = initial_value_shape v ! axis c
    \<and> sum_list sizes = byte_size_load v"
proof -
  define E where "E = initial_value_shape v ! axis c"
  define n where "n = num_shards c"
  define ext where "ext = (\<lambda>i::nat. E div n + (if int i < E mod n then 1 else 0))"
  define shapes where "shapes = map (\<lambda>i. (initial_value_shape v)[axis c := ext i]) [0..<nat n]"
  define sizes where "sizes = map (\<lambda>i. byte_size_load v * real_of_int (ext i) / real_of_int E) [0..<nat n]"
  have n0: "n \<noteq> 0" and Epos: "0 < E" using pos le by (simp_all add: n_def E_def)
  have sh: "PartHelper_shape \<lparr> part_idx = int i, part_var = v, pc = c \<rparr>
           = Inr ((initial_value_shape v)[axis c := ext i])" for i
    using shard_shape_eq [OF ax, of "int i"] n0 by (simp add: ext_def E_def n_def)
  have bs: "PartHelper_byte_size \<lparr> part_idx = int i, part_var = v, pc = c \<rparr>
           = Inr (byte_size_load v * real_of_int (ext i) / real_of_int E)" for i
    using ax Epos by (simp add: PartHelper_byte_size_def sh var_shape_def E_def)
  have c1: "collect (map PartHelper_shape (part_helpers v c)) = Inr shapes"
    by (simp add: part_helpers_def comp_def sh shapes_def n_def collect_map_Inr)
  have c2: "collect (map PartHelper_byte_size (part_helpers v c)) = Inr sizes"
    by (simp add: part_helpers_def comp_def bs sizes_def n_def collect_map_Inr)
  have len: "length shapes = nat (num_shards c) \<and> length sizes = nat (num_shards c)"
    by (simp add: shapes_def sizes_def n_def)
  have each: "\<forall>i < nat (num_shards c).
          shapes ! i = (initial_value_shape v)[axis c :=
             initial_value_shape v ! axis c div num_shards c
             + (if int i < initial_value_shape v ! axis c mod num_shards c then 1 else 0)]
        \<and> (\<forall>j < length (initial_value_shape v).
              j \<noteq> axis c \<longrightarrow> shapes ! i ! j = initial_value_shape v ! j)
        \<and> sizes ! i = byte_size_load v * real_of_int (shapes ! i ! axis c)
                          / real_of_int (initial_value_shape v ! axis c)"
    using ax by (simp add: shapes_def sizes_def ext_def E_def n_def)
  have "sum_list (map (\<lambda>s. s ! axis c) shapes) = (\<Sum>i = 0..<nat n. ext i)"
    using ax by (simp add: shapes_def comp_def sum_list_upt_sum)
  also have "\<dots> = E"
    unfolding ext_def using pos by (simp only: n_def extent_sum)
  finally have s1: "sum_list (map (\<lambda>s. s ! axis c) shapes) = initial_value_shape v ! axis c"
    by (simp add: E_def)
  have "sum_list sizes = (\<Sum>i = 0..<nat n. byte_size_load v * real_of_int (ext i) / real_of_int E)"
    by (simp add: sizes_def sum_list_upt_sum)
  also have "\<dots> = byte_size_load v * real_of_int (\<Sum>i = 0..<nat n. ext i) / real_of_int E"
    by (simp add: sum_distrib_left sum_divide_distrib)
  also have "(\<Sum>i = 0..<nat n. ext i) = E"
    unfolding ext_def using pos by (simp only: n_def extent_sum)
  finally have s2: "sum_list sizes = byte_size_load v"
    using Epos by simp
  from c1 c2 len each s1 s2 show ?thesis by blast
qed


theorem shard_shapes_and_sizes_witness:
  "(\<exists>shapes sizes.
      collect (map PartHelper_shape (part_helpers
         \<lparr> name = ''w:0'', grad_is_tensor = True, consumer_op_types = [],
           initial_value_shape = [7, 3], byte_size_load = 84 \<rparr>
         \<lparr> partition_list = [3, 1], axis = 0, num_shards = 3 \<rparr>)) = Inr shapes
    \<and> collect (map PartHelper_byte_size (part_helpers
         \<lparr> name = ''w:0'', grad_is_tensor = True, consumer_op_types = [],
           initial_value_shape = [7, 3], byte_size_load = 84 \<rparr>
         \<lparr> partition_list = [3, 1], axis = 0, num_shards = 3 \<rparr>)) = Inr sizes
    \<and> length shapes = 3 \<and> length sizes = 3
    \<and> shapes ! 0 = [3, 3] \<and> shapes ! 1 = [2, 3] \<and> shapes ! 2 = [2, 3]
    \<and> sizes ! 0 = 36 \<and> sizes ! 1 = 24 \<and> sizes ! 2 = 24
    \<and> sum_list (map (\<lambda>s. s ! 0) shapes) = 7
    \<and> sum_list sizes = 84)"
proof -
  let ?v = "\<lparr> name = ''w:0'', grad_is_tensor = True, consumer_op_types = [],
              initial_value_shape = [7, 3], byte_size_load = 84 \<rparr>"
  let ?c = "\<lparr> partition_list = [3, 1], axis = 0, num_shards = 3 \<rparr>"
  have h1: "axis ?c < length (initial_value_shape ?v)" by simp
  have h2: "0 < num_shards ?c" by simp
  have h3: "num_shards ?c \<le> initial_value_shape ?v ! axis ?c" by simp
  from shard_shapes_and_sizes [OF h1 h2 h3] obtain shapes sizes where
    r: "collect (map PartHelper_shape (part_helpers ?v ?c)) = Inr shapes"
       "collect (map PartHelper_byte_size (part_helpers ?v ?c)) = Inr sizes"
       "length shapes = nat (num_shards ?c) \<and> length sizes = nat (num_shards ?c)"
       "\<forall>i < nat (num_shards ?c).
          shapes ! i = (initial_value_shape ?v)[axis ?c :=
             initial_value_shape ?v ! axis ?c div num_shards ?c
             + (if int i < initial_value_shape ?v ! axis ?c mod num_shards ?c then 1 else 0)]
        \<and> (\<forall>j < length (initial_value_shape ?v).
              j \<noteq> axis ?c \<longrightarrow> shapes ! i ! j = initial_value_shape ?v ! j)
        \<and> sizes ! i = byte_size_load ?v * real_of_int (shapes ! i ! axis ?c)
                          / real_of_int (initial_value_shape ?v ! axis ?c)"
       "sum_list (map (\<lambda>s. s ! axis ?c) shapes) = initial_value_shape ?v ! axis ?c"
       "sum_list sizes = byte_size_load ?v"
    by blast
  from r(4) have s: "shapes ! 0 = [3, 3]" "shapes ! 1 = [2, 3]" "shapes ! 2 = [2, 3]"
    by simp_all
  from r(4) have "sizes ! 0 = 84 * real_of_int (shapes ! 0 ! 0) / 7"
    "sizes ! 1 = 84 * real_of_int (shapes ! 1 ! 0) / 7"
    "sizes ! 2 = 84 * real_of_int (shapes ! 2 ! 0) / 7"
    by simp_all
  with s have z: "sizes ! 0 = 36" "sizes ! 1 = 24" "sizes ! 2 = 24" by simp_all
  from r(1,2,3,5,6) s z show ?thesis by simp
qed

text \<open>
  C6, as stated, fails: with extent 2 and shard count 3 the shape of shard 0 is returned,
  and no ConfigurationError is raised.
\<close>

theorem shard_shape_config_error_counterexample:
  "initial_value_shape \<lparr> name = ''w:0'', grad_is_tensor = True, consumer_op_types = [],
                          initial_value_shape = [2], byte_size_load = 8 \<rparr> ! 0 < 3
   \<and> PartHelper_shape
       \<lparr> part_idx = 0,
         part_var = \<lparr> name = ''w:0'', grad_is_tensor = True, consumer_op_types = [],
                      initial_value_shape = [2], byte_size_load = 8 \<rparr>,
         pc = \<lparr> partition_list = [3], axis = 0, num_shards = 3 \<rparr> \<rparr> = Inr [1]
   \<and> PartHelper_shape
       \<lparr> part_idx = 0,
         part_var = \<lparr> name = ''w:0'', grad_is_tensor = True, consumer_op_types = [],
                      initial_value_shape = [2], byte_size_load = 8 \<rparr>,
         pc = \<lparr> partition_list = [3], axis = 0, num_shards = 3 \<rparr> \<rparr> \<noteq> Inl ConfigurationError"
  by (simp add: PartHelper_shape_def)

text \<open>
  C6, amended. Reading a shard's shape never raises ConfigurationError and never compares
  the shard count with the axis extent: whenever the axis lies inside the parent's shape
  and the shard count is not zero a shape is returned, and when the extent \<open>E\<close> is
  smaller than the shard count (and not negative) the shard has extent 1 on the axis if
  its index is below \<open>E\<close> and extent 0 otherwise.
\<close>

theorem shard_shape_unchecked:
  "PartHelper_shape p \<noteq> Inl ConfigurationError
   \<and> (axis (pc p) < length (initial_value_shape (part_var p)) \<and> num_shards (pc p) \<noteq> 0
        \<longrightarrow> (\<exists>s. PartHelper_shape p = Inr s))
   \<and> (axis (pc p) < length (initial_value_shape (part_var p))
        \<and> 0 \<le> initial_value_shape (part_var p) ! axis (pc p)
        \<and> initial_value_shape (part_var p) ! axis (pc p) < num_shards (pc p)
        \<longrightarrow> PartHelper_shape p =
              Inr ((initial_value_shape (part_var p))[axis (pc p) :=
                     (if part_idx p < initial_value_shape (part_var p) ! axis (pc p)
                      then 1 else 0)]))"
  by (auto simp: PartHelper_shape_def Let_def)

theorem shard_shape_unchecked_witness:
  "PartHelper_shape
     \<lparr> part_idx = 2,
       part_var = \<lparr> name = ''w:0'', grad_is_tensor = True, consumer_op_types = [],
                    initial_value_shape = [2, 5], byte_size_load = 40 \<rparr>,
       pc = \<lparr> partition_list = [3, 1], axis = 0, num_shards = 3 \<rparr> \<rparr> = Inr [0, 5]"
proof -
  let ?p = "\<lparr> part_idx = 2,
       part_var = \<lparr> name = ''w:0'', grad_is_tensor = True, consumer_op_types = [],
                    initial_value_shape = [2, 5], byte_size_load = 40 \<rparr>,
       pc = \<lparr> partition_list = [3, 1], axis = 0, num_shards = 3 \<rparr> \<rparr>"
  have h: "axis (pc ?p) < length (initial_value_shape (part_var ?p))
        \<and> 0 \<le> initial_value_shape (part_var ?p) ! axis (pc ?p)
        \<and> initial_value_shape (part_var ?p) ! axis (pc ?p) < num_shards (pc ?p)"
    by simp
  have h2: "axis (pc ?p) < length (initial_value_shape (part_var ?p)) \<and> num_shards (pc ?p) \<noteq> 0"
    by simp
  from shard_shape_unchecked [of ?p] h h2
  have "PartHelper_shape ?p =
              Inr ((initial_value_shape (part_var ?p))[axis (pc ?p) :=
                     (if part_idx ?p < initial_value_shape (part_var ?p) ! axis (pc ?p)
                      then 1 else 0)])"
    by blast
  then show ?thesis by simp
qed

subsection \<open>Sampling primitives\<close>

lemma uniform_member:
  "uniform_sample_by_choices cs g = Inr (x, g') \<Longrightarrow> x \<in> set cs"
  by (auto simp: uniform_sample_by_choices_def split: if_splits)

lemma uniform_attain:
  assumes "x \<in> set cs"
  shows "\<exists>g g'. uniform_sample_by_choices cs g = Inr (x, g')"
proof -
  from assms obtain i where i: "i < length cs" "cs ! i = x"
    by (auto simp: in_set_conv_nth)
  then have "uniform_sample_by_choices cs [i] = Inr (x, [])"
    by (auto simp: uniform_sample_by_choices_def)
  then show ?thesis by blast
qed

subsection \<open>Synchronizer sampling\<close>

lemma local_replication_total:
  "num_gpus rs \<le> num_cpus rs \<or> opts \<noteq> []
   \<Longrightarrow> \<exists>b g'. sample_if_local_replication opts rs g = Inr (b, g')"
  by (auto simp: sample_if_local_replication_def uniform_sample_by_choices_def)

lemma fill_PS_kind:
  "fill_synchronizer ''PS'' l rs sp g = Inr (l', g') \<Longrightarrow> \<exists>p. synchronizer l' = Some (PS p)"
  by (auto simp: fill_synchronizer_def split: sum.splits)

lemma fill_PS_total:
  "num_gpus rs \<le> num_cpus rs \<or> space_local_replication sp \<noteq> []
   \<Longrightarrow> \<exists>l' g'. fill_synchronizer ''PS'' l rs sp g = Inr (l', g')"
  using local_replication_total [of rs "space_local_replication sp" g]
  by (auto simp: fill_synchronizer_def)

lemma fill_synchronizer_types_irrelevant:
  "fill_synchronizer t l rs (sp\<lparr>synchronizer_types := ts\<rparr>) g = fill_synchronizer t l rs sp g"
  by (simp add: fill_synchronizer_def)

lemma fill_parts_types_irrelevant:
  "fill_parts xs rs (sp\<lparr>synchronizer_types := ts\<rparr>) g = fill_parts xs rs sp g"
  by (induction xs rs sp g rule: fill_parts.induct)
     (auto simp: fill_synchronizer_types_irrelevant split: sum.splits)

lemma fill_parts_PS_kind:
  "fill_parts (zip parts (replicate (length parts) ''PS'')) rs sp g = Inr (parts', g')
   \<Longrightarrow> length parts' = length parts \<and> (\<forall>part \<in> set parts'. \<exists>p. synchronizer part = Some (PS p))"
proof (induction parts arbitrary: g parts')
  case Nil
  then show ?case by simp
next
  case (Cons part parts)
  then show ?case
    by (fastforce split: sum.splits dest: fill_PS_kind)
qed

lemma fill_parts_PS_total:
  assumes "num_gpus rs \<le> num_cpus rs \<or> space_local_replication sp \<noteq> []"
  shows "\<exists>parts' g'. fill_parts (zip parts (replicate (length parts) ''PS'')) rs sp g
                        = Inr (parts', g')"
proof (induction parts arbitrary: g)
  case Nil
  then show ?case by simp
next
  case (Cons part parts)
  from fill_PS_total [OF assms, of part g] obtain l' g1
    where a: "fill_synchronizer ''PS'' part rs sp g = Inr (l', g1)" by blast
  from Cons.IH [of g1] obtain parts' g2
    where b: "fill_parts (zip parts (replicate (length parts) ''PS'')) rs sp g1 = Inr (parts', g2)"
    by blast
  from a b show ?case by simp
qed

text \<open>
  C2. For a SPARSE parameter the synchronizer sampled for the whole parameter, and for
  each of its shards, is the centralized one: every record that either stage returns
  has the centralized member active, the shard list keeps its length, the result does
  not depend on the synchronizer-kind set of the space nor on the heuristic
  \<open>same_synchronizer_for_parts\<close>, and both stages do return whenever the
  local-replication decision can be taken (it is forced, or its option set is not empty).
\<close>

theorem sparse_always_centralized:
  fixes node :: Node
  assumes "var_type vh = SPARSE"
  shows "(\<forall>node' g'. sample_var_synchronizer node vh rs sp g = Inr (node', g')
            \<longrightarrow> (\<exists>p. synchronizer node' = Some (PS p)))
       \<and> (\<forall>parts' g'. sample_parts_synchronizers parts vh rs sp h g = Inr (parts', g')
            \<longrightarrow> length parts' = length parts
                \<and> (\<forall>part \<in> set parts'. \<exists>p. synchronizer part = Some (PS p)))
       \<and> sample_var_synchronizer node vh rs (sp\<lparr>synchronizer_types := ts\<rparr>) g
           = sample_var_synchronizer node vh rs sp g
       \<and> sample_parts_synchronizers parts vh rs (sp\<lparr>synchronizer_types := ts\<rparr>)
             (h\<lparr>same_synchronizer_for_parts := b\<rparr>) g
           = sample_parts_synchronizers parts vh rs sp h g
       \<and> (num_gpus rs \<le> num_cpus rs \<or> space_local_replication sp \<noteq> []
            \<longrightarrow> (\<exists>node' g'. sample_var_synchronizer node vh rs sp g = Inr (node', g'))
              \<and> (\<exists>parts' g'. sample_parts_synchronizers parts vh rs sp h g = Inr (parts', g')))"
proof -
  have v: "sample_var_synchronizer node vh rs sp' g = fill_synchronizer ''PS'' node rs sp' g"
    for sp' using assms by (simp add: sample_var_synchronizer_def)
  have p: "sample_parts_synchronizers parts vh rs sp' h' g
           = fill_parts (zip parts (replicate (length parts) ''PS'')) rs sp' g"
    for sp' h' using assms by (simp add: sample_parts_synchronizers_def)
  have 1: "\<forall>node' g'. sample_var_synchronizer node vh rs sp g = Inr (node', g')
            \<longrightarrow> (\<exists>p. synchronizer node' = Some (PS p))"
    unfolding v by (blast dest: fill_PS_kind)
  have 2: "\<forall>parts' g'. sample_parts_synchronizers parts vh rs sp h g = Inr (parts', g')
            \<longrightarrow> length parts' = length parts
                \<and> (\<forall>part \<in> set parts'. \<exists>p. synchronizer part = Some (PS p))"
    unfolding p by (blast dest: fill_parts_PS_kind)
  have 3: "sample_var_synchronizer node vh rs (sp\<lparr>synchronizer_types := ts\<rparr>) g
           = sample_var_synchronizer node vh rs sp g"
    unfolding v by (rule fill_synchronizer_types_irrelevant)
  have 4: "sample_parts_synchronizers parts vh rs (sp\<lparr>synchronizer_types := ts\<rparr>)
             (h\<lparr>same_synchronizer_for_parts := b\<rparr>) g
           = sample_parts_synchronizers parts vh rs sp h g"
    unfolding p by (rule fill_parts_types_irrelevant)
  have 5: "num_gpus rs \<le> num_cpus rs \<or> space_local_replication sp \<noteq> []
            \<longrightarrow> (\<exists>node' g'. sample_var_synchronizer node vh rs sp g = Inr (node', g'))
              \<and> (\<exists>parts' g'. sample_parts_synchronizers parts vh rs sp h g = Inr (parts', g'))"
    unfolding v p using fill_PS_total fill_parts_PS_total by blast
  from 1 2 3 4 5 show ?thesis by blast
qed


theorem sparse_always_centralized_witness:
  "var_type \<lparr> var = \<lparr> name = ''emb:0'', grad_is_tensor = False, consumer_op_types = [''ResourceGather''],
                        initial_value_shape = [100, 8], byte_size_load = 3200 \<rparr>,
               partitionable_axis = None \<rparr> = SPARSE
   \<and> (\<exists>node' g' p.
         sample_var_synchronizer (new_node ''emb:0'')
           \<lparr> var = \<lparr> name = ''emb:0'', grad_is_tensor = False, consumer_op_types = [''ResourceGather''],
                      initial_value_shape = [100, 8], byte_size_load = 3200 \<rparr>,
             partitionable_axis = None \<rparr>
           \<lparr> cpu_devices = [], gpu_devices = [], num_cpus = 2, num_gpus = 2 \<rparr>
           (default_space\<lparr>synchronizer_types := [''AR'']\<rparr>) [5] = Inr (node', g')
         \<and> synchronizer node' = Some (PS p))
   \<and> (\<exists>parts' g'.
         sample_parts_synchronizers [new_part ''emb/part_0:0'', new_part ''emb/part_1:0'']
           \<lparr> var = \<lparr> name = ''emb:0'', grad_is_tensor = False, consumer_op_types = [''ResourceGather''],
                      initial_value_shape = [100, 8], byte_size_load = 3200 \<rparr>,
             partitionable_axis = None \<rparr>
           \<lparr> cpu_devices = [], gpu_devices = [], num_cpus = 2, num_gpus = 2 \<rparr>
           (default_space\<lparr>synchronizer_types := [''AR'']\<rparr>) (default_heuristics 2147483647) [5]
           = Inr (parts', g')
         \<and> length parts' = 2)"
proof -
  let ?vh = "\<lparr> var = \<lparr> name = ''emb:0'', grad_is_tensor = False, consumer_op_types = [''ResourceGather''],
                      initial_value_shape = [100, 8], byte_size_load = 3200 \<rparr>,
             partitionable_axis = None \<rparr>"
  let ?rs = "\<lparr> cpu_devices = [], gpu_devices = [], num_cpus = 2, num_gpus = 2 \<rparr>"
  let ?sp = "default_space\<lparr>synchronizer_types := [''AR'']\<rparr>"
  let ?parts = "[new_part ''emb/part_0:0'', new_part ''emb/part_1:0'']"
  have h: "var_type ?vh = SPARSE" by (simp add: var_type_def)
  have t: "num_gpus ?rs \<le> num_cpus ?rs \<or> space_local_replication ?sp \<noteq> []" by simp
  note th = sparse_always_centralized
              [OF h, of "new_node ''emb:0''" ?rs ?sp "[5]" ?parts "default_heuristics 2147483647"]
  from th t obtain node' g' where
    a: "sample_var_synchronizer (new_node ''emb:0'') ?vh ?rs ?sp [5] = Inr (node', g')"
    by blast
  from th a obtain p where b: "synchronizer node' = Some (PS p)" by blast
  from th t obtain parts' g'' where
    c: "sample_parts_synchronizers ?parts ?vh ?rs ?sp (default_heuristics 2147483647) [5]
          = Inr (parts', g'')"
    by blast
  from th c have d: "length parts' = length ?parts" by blast
  from h a b c d show ?thesis by auto
qed

subsection \<open>Partition decision\<close>

lemma sample_if_partition_singleton:
  "length (maybe_partition sp) = 1
   \<Longrightarrow> sample_if_partition vh rs sp h g = Inr (PyList (maybe_partition sp), g)"
  by (simp add: sample_if_partition_def)

lemma sample_partition_config_no_attribute:
  "sample_partition_config (VariableHelper_init v) rs sp h g = Inl AttributeError"
  by (simp add: sample_partition_config_def VariableHelper_init_def)

text \<open>
  C3, at the failing input. With the singleton space \<open>[False]\<close> the partition decision
  returns the list \<open>[False]\<close> instead of its element; a non-empty list is true, so the
  loop body of \<open>build\<close> takes the sharding branch, whose first stage
  (\<open>sample_partition_config\<close> on the view that \<open>build\<close> constructs) raises
  AttributeError.
\<close>

theorem singleton_outcome_returns_list:
  "sample_if_partition vh rs (sp\<lparr>maybe_partition := [False]\<rparr>) h g = Inr (PyList [False], g)
   \<and> truthy (PyList [False])
   \<and> fst (build_var ext (sp\<lparr>maybe_partition := [False]\<rparr>) h rs v hs g) = Inl AttributeError"
  by (simp add: sample_if_partition_singleton build_var_def Let_def
        sample_partition_config_no_attribute)

text \<open>
  What the partition decision does by design, on a view that answers
  \<open>partitionable_axis\<close> with a non-empty list of axes meeting the space's axis
  restriction, on a cluster that the single-device rule does not stop, under a space
  that does not force a single outcome: \<open>byte_size\<close> at or below the lower bound yields
  \<open>False\<close>, and \<open>byte_size\<close> at or above the upper bound and above the lower bound
  yields \<open>True\<close>, for every state of the random source, which is returned untouched.
  With the lower bound below the upper bound that is the rule of the spec word for word.
\<close>

lemma partition_decision_designed:
  assumes "partitionable_axis vh = Some axes" and "axes \<noteq> []"
    and "space_partitionable_axis sp = []
         \<or> (\<exists>a. a \<in> set axes \<and> a \<in> set (space_partitionable_axis sp))"
    and "\<not> (enable_single_node_no_partition h \<and> length (cpu_devices rs) \<le> 1)"
    and "length (maybe_partition sp) \<noteq> 1"
  shows "(byte_size vh \<le> fst (maybe_partition_bounds h)
            \<longrightarrow> (\<forall>g. sample_if_partition vh rs sp h g = Inr (PyBool False, g)))
       \<and> (fst (maybe_partition_bounds h) < byte_size vh
            \<and> snd (maybe_partition_bounds h) \<le> byte_size vh
            \<longrightarrow> (\<forall>g. sample_if_partition vh rs sp h g = Inr (PyBool True, g)))"
proof -
  have ax: "\<not> (space_partitionable_axis sp \<noteq> []
              \<and> length (filter (\<lambda>a. a \<in> set (space_partitionable_axis sp)) (remdups axes)) < 1)"
    using assms(3) by (auto simp: filter_empty_conv)
  show ?thesis
    using assms(1,2,4,5) ax by (simp add: sample_if_partition_def Let_def)
qed

lemma partition_decision_designed_ordered:
  assumes "partitionable_axis vh = Some axes" and "axes \<noteq> []"
    and "space_partitionable_axis sp = []
         \<or> (\<exists>a. a \<in> set axes \<and> a \<in> set (space_partitionable_axis sp))"
    and "\<not> (enable_single_node_no_partition h \<and> length (cpu_devices rs) \<le> 1)"
    and "length (maybe_partition sp) \<noteq> 1"
    and "fst (maybe_partition_bounds h) < snd (maybe_partition_bounds h)"
  shows "(byte_size vh \<le> fst (maybe_partition_bounds h)
            \<longrightarrow> (\<forall>g. sample_if_partition vh rs sp h g = Inr (PyBool False, g)))
       \<and> (snd (maybe_partition_bounds h) \<le> byte_size vh
            \<longrightarrow> (\<forall>g. sample_if_partition vh rs sp h g = Inr (PyBool True, g)))"
  using partition_decision_designed [OF assms(1-5)] assms(6) by auto

text \<open>
  C4, at the failing input. On the view that \<open>build\<close> constructs for a parameter the
  partition decision never reaches the byte-size bounds: unless the space forces a single
  outcome or the single-device rule stops it, the read of \<open>partitionable_axis\<close> raises
  AttributeError, whatever the byte size. So a parameter at the lower bound (byte size 0
  under the default bounds) is not answered \<open>False\<close>, and a parameter at the upper
  bound is not answered \<open>True\<close>: both calls raise.
\<close>

theorem partition_decision_on_built_view:
  "sample_if_partition (VariableHelper_init v) rs sp h g
     = (if length (maybe_partition sp) = 1 then Inr (PyList (maybe_partition sp), g)
        else if enable_single_node_no_partition h \<and> length (cpu_devices rs) \<le> 1
          then Inr (PyBool False, g)
        else Inl AttributeError)
   \<and> sample_if_partition
        (VariableHelper_init \<lparr> name = ''w:0'', grad_is_tensor = True, consumer_op_types = [],
                                initial_value_shape = [4], byte_size_load = 0 \<rparr>)
        \<lparr> cpu_devices = [(''n0:CPU:0'', ''cpu''), (''n1:CPU:0'', ''cpu'')], gpu_devices = [],
          num_cpus = 2, num_gpus = 2 \<rparr>
        default_space (default_heuristics 2147483647) [1, 2] = Inl AttributeError
   \<and> sample_if_partition
        (VariableHelper_init \<lparr> name = ''w:0'', grad_is_tensor = True, consumer_op_types = [],
                                initial_value_shape = [4], byte_size_load = 2147483647 \<rparr>)
        \<lparr> cpu_devices = [(''n0:CPU:0'', ''cpu''), (''n1:CPU:0'', ''cpu'')], gpu_devices = [],
          num_cpus = 2, num_gpus = 2 \<rparr>
        default_space (default_heuristics 2147483647) [1, 2] = Inl AttributeError"
  by (simp add: sample_if_partition_def VariableHelper_init_def default_space_def
        default_heuristics_def)

subsection \<open>Partition configuration\<close>

lemma replicate_update_split:
  "ax < n \<Longrightarrow> (replicate n (1::int))[ax := k] = replicate ax 1 @ k # replicate (n - Suc ax) 1"
  by (simp add: list_eq_iff_nth_eq nth_list_update nth_append nth_Cons split: nat.splits)

lemma descriptor_axis_and_count:
  assumes "ax < n" and "k \<noteq> 1"
  shows "axis (PartitionerConfig_init ((replicate n 1)[ax := k])) = ax"
    and "num_shards (PartitionerConfig_init ((replicate n 1)[ax := k])) = k"
    and "partition_list (PartitionerConfig_init ((replicate n 1)[ax := k])) = (replicate n 1)[ax := k]"
  using assms
  by (simp_all add: PartitionerConfig_init_def replicate_update_split takeWhile_append)

lemma sample_partition_config_designed:
  assumes "partitionable_axis vh = Some axes"
    and "sample_partition_config vh rs sp h g = Inr (c, g')"
  shows "\<exists>ax shp lo up k.
           ax \<in> set axes
         \<and> (space_partitionable_axis sp = [] \<or> ax \<in> set (space_partitionable_axis sp))
         \<and> shape vh = Some shp \<and> ax < length shp
         \<and> fst (num_partition_bounds h) = IntBound lo
         \<and> (snd (num_partition_bounds h) = StrBound ''num_nodes'' \<and> up = num_cpus rs
              \<or> snd (num_partition_bounds h) = IntBound up)
         \<and> max 2 lo \<le> k \<and> k \<le> min (shp ! ax) up
         \<and> partition_list c = (replicate (length shp) 1)[ax := k]
         \<and> axis c = ax \<and> num_shards c = k"
proof -
  define valid where "valid = (if space_partitionable_axis sp \<noteq> []
                   then filter (\<lambda>a. a \<in> set (space_partitionable_axis sp)) (remdups axes)
                   else axes)"
  from assms obtain ax g1 where ax: "uniform_sample_by_choices valid g = Inr (ax, g1)"
    by (auto simp: sample_partition_config_def valid_def Let_def split: if_splits sum.splits)
  then have axv: "ax \<in> set valid" by (rule uniform_member)
  then have ax1: "ax \<in> set axes"
    and ax2: "space_partitionable_axis sp = [] \<or> ax \<in> set (space_partitionable_axis sp)"
    by (auto simp: valid_def split: if_splits)
  from assms ax obtain shp where shp: "shape vh = Some shp" "ax < length shp"
    by (auto simp: sample_partition_config_def valid_def [symmetric] Let_def
             split: if_splits option.splits)
  from assms ax shp obtain lo where lo: "fst (num_partition_bounds h) = IntBound lo"
    by (auto simp: sample_partition_config_def valid_def [symmetric] Let_def
             split: if_splits sum.splits bound.splits)
  from assms ax shp lo obtain up where
    up: "snd (num_partition_bounds h) = StrBound ''num_nodes'' \<and> up = num_cpus rs
         \<or> snd (num_partition_bounds h) = IntBound up"
    by (auto simp: sample_partition_config_def valid_def [symmetric] Let_def
             split: if_splits sum.splits bound.splits)
  from assms ax shp lo up obtain k where
    k: "uniform_sample_by_choices [max 2 lo .. min (shp ! ax) up] g1 = Inr (k, g')"
       "c = PartitionerConfig_init ((replicate (length shp) 1)[ax := k])"
    by (auto simp: sample_partition_config_def valid_def [symmetric] Let_def
             split: if_splits sum.splits bound.splits)
  from k(1) have kr: "max 2 lo \<le> k \<and> k \<le> min (shp ! ax) up"
    by (auto dest!: uniform_member)
  then have k1: "k \<noteq> 1" by auto
  from descriptor_axis_and_count [OF shp(2) k1] k(2)
  have "partition_list c = (replicate (length shp) 1)[ax := k]" "axis c = ax" "num_shards c = k"
    by simp_all
  with ax1 ax2 shp lo up kr show ?thesis by blast
qed

text \<open>
  C7, at the failing inputs. On the view that \<open>build\<close> constructs the stage raises
  AttributeError for every configuration; with the sentinel \<open>'num_nodes'\<close> as lower
  bound it returns no descriptor for any view, and on a view that does answer
  \<open>partitionable_axis\<close> it raises TypeError where the claim resolves the sentinel to
  the device count.
\<close>

theorem partition_config_sentinel_and_attribute:
  "sample_partition_config (VariableHelper_init v) rs sp h g = Inl AttributeError
   \<and> sample_partition_config vh rs sp
        (h\<lparr>num_partition_bounds := (StrBound ''num_nodes'', ub)\<rparr>) g \<noteq> Inr r
   \<and> sample_partition_config
        \<lparr> var = \<lparr> name = ''w:0'', grad_is_tensor = True, consumer_op_types = [],
                   initial_value_shape = [8, 4], byte_size_load = 128 \<rparr>,
          partitionable_axis = Some [0, 1] \<rparr>
        \<lparr> cpu_devices = [(''n0:CPU:0'', ''cpu''), (''n1:CPU:0'', ''cpu'')], gpu_devices = [],
          num_cpus = 2, num_gpus = 2 \<rparr>
        default_space
        ((default_heuristics 2147483647)
           \<lparr>num_partition_bounds := (StrBound ''num_nodes'', StrBound ''num_nodes'')\<rparr>) [0, 0]
      = Inl TypeError"
proof -
  have "sample_partition_config vh rs sp
        (h\<lparr>num_partition_bounds := (StrBound ''num_nodes'', ub)\<rparr>) g \<noteq> Inr r"
    by (auto simp: sample_partition_config_def Let_def
             split: option.splits sum.splits bound.splits if_splits)
  moreover have "sample_partition_config
        \<lparr> var = \<lparr> name = ''w:0'', grad_is_tensor = True, consumer_op_types = [],
                   initial_value_shape = [8, 4], byte_size_load = 128 \<rparr>,
          partitionable_axis = Some [0, 1] \<rparr>
        \<lparr> cpu_devices = [(''n0:CPU:0'', ''cpu''), (''n1:CPU:0'', ''cpu'')], gpu_devices = [],
          num_cpus = 2, num_gpus = 2 \<rparr>
        default_space
        ((default_heuristics 2147483647)
           \<lparr>num_partition_bounds := (StrBound ''num_nodes'', StrBound ''num_nodes'')\<rparr>) [0, 0]
      = Inl TypeError"
    by (simp add: sample_partition_config_def default_space_def default_heuristics_def
          uniform_sample_by_choices_def shape_def)
  ultimately show ?thesis
    by (simp add: sample_partition_config_no_attribute)
qed

subsection \<open>Pools and write-back\<close>

lemma collect_Inr_all2:
  "collect (map f xs) = Inr ys \<Longrightarrow> list_all2 (\<lambda>x y. f x = Inr y) xs ys"
proof (induction xs arbitrary: ys)
  case Nil
  then show ?case by simp
next
  case (Cons x xs)
  then show ?case
    by (cases "f x") (auto split: sum.splits)
qed

lemma leaf_of_sel [simp]:
  "var_name (leaf_of l) = var_name l" "synchronizer (leaf_of l) = synchronizer l"
  by (simp_all add: leaf_of_def)

lemma leaf_of_leaf [simp]: "leaf_of (l :: leaf) = l"
  by (simp add: leaf_of_def)

lemma leaves_append: "leaves (a @ b) = leaves a @ leaves b"
  by (simp add: leaves_def)

lemma leaves_rel:
  "list_all2 (node_rel R) ns ns' \<Longrightarrow> list_all2 R (leaves ns) (leaves ns')"
proof (induction ns ns' rule: list_all2_induct)
  case Nil
  then show ?case by (simp add: leaves_def)
next
  case (Cons n ns n' ns')
  then show ?case
    by (auto simp: leaves_def node_rel_def intro: list_all2_appendI)
qed

lemma list_all2_pre:
  "list_all2 P xs ys \<Longrightarrow> y \<in> set ys \<Longrightarrow> \<exists>x \<in> set xs. P x y"
  by (induction xs ys rule: list_all2_induct) auto

lemma node_rel_same:
  "(\<And>l. l \<in> set (leaves ns) \<Longrightarrow> R l l) \<Longrightarrow> list_all2 (node_rel R) ns ns"
proof (induction ns)
  case Nil
  then show ?case by simp
next
  case (Cons n ns)
  have l: "leaves (n # ns) = leaves [n] @ leaves ns" by (simp add: leaves_def)
  have "node_rel R n n"
  proof (cases "partitioner n \<noteq> []")
    case True
    then have "\<forall>l \<in> set (part_config n). R l l"
      using Cons.prems by (simp add: leaves_def)
    with True show ?thesis by (simp add: node_rel_def list_all2_same)
  next
    case False
    then have "R (leaf_of n) (leaf_of n)" using Cons.prems by (simp add: leaves_def)
    with False show ?thesis by (simp add: node_rel_def)
  qed
  moreover have "list_all2 (node_rel R) ns ns"
    using Cons.prems by (intro Cons.IH) (simp add: l)
  ultimately show ?case by simp
qed

lemma node_rel_comp:
  assumes "list_all2 (node_rel R1) a b" and "list_all2 (node_rel R2) b c"
    and r: "\<And>x y z. R1 x y \<Longrightarrow> R2 y z \<Longrightarrow> R x z"
  shows "list_all2 (node_rel R) a c"
proof -
  have "node_rel R n n2" if "node_rel R1 n n1" "node_rel R2 n1 n2" for n n1 n2
  proof (cases "partitioner n \<noteq> []")
    case True
    with that have "list_all2 R1 (part_config n) (part_config n1)"
      "list_all2 R2 (part_config n1) (part_config n2)" "partitioner n2 = partitioner n"
      by (auto simp: node_rel_def)
    then have "list_all2 R (part_config n) (part_config n2)" "partitioner n2 = partitioner n"
      using r by (auto elim: list_all2_trans [rotated])
    with True show ?thesis by (simp add: node_rel_def)
  next
    case False
    with that have "R1 (leaf_of n) (leaf_of n1)" "R2 (leaf_of n1) (leaf_of n2)"
      "partitioner n2 = partitioner n"
      by (auto simp: node_rel_def)
    with False r show ?thesis by (auto simp: node_rel_def)
  qed
  then show ?thesis using assms(1,2) by (rule list_all2_trans)
qed

lemma pooled_mono:
  "pooled ps ar l \<Longrightarrow> fst ` set ps \<subseteq> fst ` set ps' \<Longrightarrow> fst ` set ar \<subseteq> fst ` set ar'
   \<Longrightarrow> pooled ps' ar' l"
  by (auto simp: pooled_def split: option.splits synchronizer.splits)

lemma pool_leaf_pooled:
  assumes "pool_leaf l (ps0, ar0, i0) = Inr (ps, ar, i)"
  shows "fst ` set ps0 \<subseteq> fst ` set ps \<and> fst ` set ar0 \<subseteq> fst ` set ar \<and> pooled ps ar (leaf_of l)"
proof (cases "synchronizer l")
  case None
  with assms show ?thesis by (simp add: pool_leaf_def)
next
  case (Some s)
  show ?thesis
  proof (cases s)
    case (PS p)
    with Some assms have "ps = AList.update (var_name l) i0 ps0" "ar = ar0"
      by (simp_all add: pool_leaf_def)
    with Some PS show ?thesis by (simp add: pooled_def dom_update subset_insertI)
  next
    case (AR a)
    with Some assms have "ar = AList.update (var_name l) i0 ar0" "ps = ps0"
      by (simp_all add: pool_leaf_def)
    with Some AR show ?thesis by (simp add: pooled_def dom_update subset_insertI)
  qed
qed

lemma pool_parts_pooled:
  "pool_parts parts (ps0, ar0, i0) = Inr (ps, ar, i)
   \<Longrightarrow> fst ` set ps0 \<subseteq> fst ` set ps \<and> fst ` set ar0 \<subseteq> fst ` set ar
       \<and> (\<forall>l \<in> set parts. pooled ps ar l)"
proof (induction parts arbitrary: ps0 ar0 i0)
  case Nil
  then show ?case by simp
next
  case (Cons part parts)
  from Cons.prems obtain ps1 ar1 i1 where
    a: "pool_leaf part (ps0, ar0, i0) = Inr (ps1, ar1, i1)"
    and b: "pool_parts parts (ps1, ar1, i1) = Inr (ps, ar, i)"
    by (auto split: sum.splits)
  from pool_leaf_pooled [OF a] have
    a': "fst ` set ps0 \<subseteq> fst ` set ps1" "fst ` set ar0 \<subseteq> fst ` set ar1"
        "pooled ps1 ar1 (leaf_of part)"
    by simp_all
  from Cons.IH [OF b] have
    b': "fst ` set ps1 \<subseteq> fst ` set ps" "fst ` set ar1 \<subseteq> fst ` set ar"
        "\<forall>l \<in> set parts. pooled ps ar l"
    by simp_all
  from a'(3) b'(1,2) have p: "pooled ps ar part" by (auto intro: pooled_mono)
  have "fst ` set ps0 \<subseteq> fst ` set ps" using a'(1) b'(1) by (rule subset_trans)
  moreover have "fst ` set ar0 \<subseteq> fst ` set ar" using a'(2) b'(2) by (rule subset_trans)
  ultimately show ?case using p b'(3) by simp
qed

lemma pool_nodes_pooled:
  "pool_nodes ns (ps0, ar0, i0) = Inr (ps, ar, i)
   \<Longrightarrow> fst ` set ps0 \<subseteq> fst ` set ps \<and> fst ` set ar0 \<subseteq> fst ` set ar
       \<and> (\<forall>l \<in> set (leaves ns). pooled ps ar l)"
proof (induction ns arbitrary: ps0 ar0 i0)
  case Nil
  then show ?case by (simp add: leaves_def)
next
  case (Cons n ns)
  from Cons.prems obtain ps1 ar1 i1 where
    a: "(if partitioner n \<noteq> [] then pool_parts (part_config n) (ps0, ar0, i0)
         else pool_leaf n (ps0, ar0, i0)) = Inr (ps1, ar1, i1)"
    and b: "pool_nodes ns (ps1, ar1, i1) = Inr (ps, ar, i)"
    by (auto split: sum.splits)
  from Cons.IH [OF b] have
    b': "fst ` set ps1 \<subseteq> fst ` set ps" "fst ` set ar1 \<subseteq> fst ` set ar"
        "\<forall>l \<in> set (leaves ns). pooled ps ar l"
    by simp_all
  have a': "fst ` set ps0 \<subseteq> fst ` set ps1 \<and> fst ` set ar0 \<subseteq> fst ` set ar1
        \<and> (\<forall>l \<in> set (leaves [n]). pooled ps1 ar1 l)"
  proof (cases "partitioner n \<noteq> []")
    case True
    with a pool_parts_pooled [of "part_config n" ps0 ar0 i0 ps1 ar1 i1]
    show ?thesis by (simp add: leaves_def)
  next
    case False
    with a pool_leaf_pooled [of n ps0 ar0 i0 ps1 ar1 i1]
    show ?thesis by (simp add: leaves_def)
  qed
  then have l1: "\<forall>l \<in> set (leaves [n]). pooled ps ar l"
    using b'(1,2) by (blast intro: pooled_mono)
  have l2: "leaves (n # ns) = leaves [n] @ leaves ns" by (simp add: leaves_def)
  have "fst ` set ps0 \<subseteq> fst ` set ps" using a' b'(1) by (blast intro: subset_trans)
  moreover have "fst ` set ar0 \<subseteq> fst ` set ar" using a' b'(2) by (blast intro: subset_trans)
  moreover have "\<forall>l \<in> set (leaves (n # ns)). pooled ps ar l"
    unfolding l2 using l1 b'(3) by auto
  ultimately show ?case by blast
qed



lemma attach_lookup:
  "attach sh d = Inr sh' \<Longrightarrow> map_of sh' n = Some (i, v) \<Longrightarrow> map_of d n = Some v"
proof (induction sh arbitrary: sh')
  case Nil
  then show ?case by simp
next
  case (Cons a sh)
  obtain m j where a: "a = (m, j)" by (cases a)
  from Cons.prems(1) a obtain w rest where
    w: "map_of d m = Some w" and r: "attach sh d = Inr rest" and s: "sh' = (m, j, w) # rest"
    by (auto split: option.splits sum.splits)
  show ?case
  proof (cases "n = m")
    case True
    with Cons.prems(2) s w show ?thesis by simp
  next
    case False
    with Cons.prems(2) s have "map_of rest n = Some (i, v)" by simp
    with Cons.IH [OF r] show ?thesis .
  qed
qed


lemma assign_ps_leaf_step:
  assumes "assign_ps_leaf l ps = Inr l'"
    and "\<And>n i d. map_of ps n = Some (i, d) \<Longrightarrow> md n = Some d"
  shows "ps_step md (leaf_of l) (leaf_of l')"
proof (cases "synchronizer l")
  case None
  with assms(1) show ?thesis by (simp add: assign_ps_leaf_def)
next
  case (Some s)
  show ?thesis
  proof (cases s)
    case (AR a)
    with Some assms(1) show ?thesis by (auto simp: assign_ps_leaf_def ps_step_def)
  next
    case (PS p)
    with Some assms(1) obtain i d where
      m: "map_of ps (var_name l) = Some (i, d)"
      and l': "l' = l\<lparr>synchronizer := Some (PS (p\<lparr>reduction_destination := d\<rparr>))\<rparr>"
      by (auto simp: assign_ps_leaf_def split: option.splits)
    from m have "md (var_name l) = Some d" by (rule assms(2))
    with Some PS l' show ?thesis by (auto simp: ps_step_def)
  qed
qed

lemma assign_ps_leaf_partitioner:
  "assign_ps_leaf (n :: Node) ps = Inr n' \<Longrightarrow> partitioner n' = partitioner n"
  by (auto simp: assign_ps_leaf_def split: option.splits synchronizer.splits)

lemma assign_ps_node_rel:
  assumes "assign_ps_node n ps = Inr n'"
    and "\<And>m i d. map_of ps m = Some (i, d) \<Longrightarrow> md m = Some d"
  shows "node_rel (ps_step md) n n'"
proof (cases "partitioner n \<noteq> []")
  case True
  with assms(1) obtain parts where
    c: "collect (map (\<lambda>part. assign_ps_leaf part ps) (part_config n)) = Inr parts"
    and n': "n' = n\<lparr>part_config := parts\<rparr>"
    by (auto simp: assign_ps_node_def split: sum.splits)
  from collect_Inr_all2 [OF c]
  have "list_all2 (\<lambda>x y. assign_ps_leaf x ps = Inr y) (part_config n) parts" .
  then have "list_all2 (ps_step md) (part_config n) parts"
    using assign_ps_leaf_step [where md = md and ps = ps] assms(2)
    by (fastforce elim!: list_all2_mono)
  with True n' show ?thesis by (simp add: node_rel_def)
next
  case False
  with assms(1) have a: "assign_ps_leaf n ps = Inr n'" by (simp add: assign_ps_node_def)
  from assign_ps_leaf_step [OF a assms(2)] assign_ps_leaf_partitioner [OF a] False
  show ?thesis by (simp add: node_rel_def)
qed

lemma assign_ps_all_rel:
  assumes "assign_ps_reduction_destinations ns ps = Inr ns'"
    and "\<And>m i d. map_of ps m = Some (i, d) \<Longrightarrow> md m = Some d"
  shows "list_all2 (node_rel (ps_step md)) ns ns'"
proof -
  from assms(1) have "list_all2 (\<lambda>x y. assign_ps_node x ps = Inr y) ns ns'"
    unfolding assign_ps_reduction_destinations_def by (rule collect_Inr_all2)
  then show ?thesis
    using assign_ps_node_rel [where md = md and ps = ps] assms(2)
    by (fastforce elim!: list_all2_mono)
qed

lemma assign_ar_leaf_step:
  assumes "assign_ar_leaf l ar = Inr l'"
    and "\<And>n i k. map_of ar n = Some (i, k) \<Longrightarrow> mg n = Some k"
  shows "ar_step mg (leaf_of l) (leaf_of l')"
proof (cases "synchronizer l")
  case None
  with assms(1) show ?thesis by (simp add: assign_ar_leaf_def)
next
  case (Some s)
  show ?thesis
  proof (cases s)
    case (PS p)
    with Some assms(1) show ?thesis by (auto simp: assign_ar_leaf_def ar_step_def)
  next
    case (AR a)
    with Some assms(1) obtain i k where
      m: "map_of ar (var_name l) = Some (i, k)"
      and l': "l' = l\<lparr>synchronizer := Some (AR (a\<lparr>group := k\<rparr>))\<rparr>"
      by (auto simp: assign_ar_leaf_def split: option.splits)
    from m have "mg (var_name l) = Some k" by (rule assms(2))
    with Some AR l' show ?thesis by (auto simp: ar_step_def)
  qed
qed

lemma assign_ar_leaf_partitioner:
  "assign_ar_leaf (n :: Node) ar = Inr n' \<Longrightarrow> partitioner n' = partitioner n"
  by (auto simp: assign_ar_leaf_def split: option.splits synchronizer.splits)

lemma assign_ar_node_rel:
  assumes "assign_ar_node n ar = Inr n'"
    and "\<And>m i k. map_of ar m = Some (i, k) \<Longrightarrow> mg m = Some k"
  shows "node_rel (ar_step mg) n n'"
proof (cases "partitioner n \<noteq> []")
  case True
  with assms(1) obtain parts where
    c: "collect (map (\<lambda>part. assign_ar_leaf part ar) (part_config n)) = Inr parts"
    and n': "n' = n\<lparr>part_config := parts\<rparr>"
    by (auto simp: assign_ar_node_def split: sum.splits)
  from collect_Inr_all2 [OF c]
  have "list_all2 (\<lambda>x y. assign_ar_leaf x ar = Inr y) (part_config n) parts" .
  then have "list_all2 (ar_step mg) (part_config n) parts"
    using assign_ar_leaf_step [where mg = mg and ar = ar] assms(2)
    by (fastforce elim!: list_all2_mono)
  with True n' show ?thesis by (simp add: node_rel_def)
next
  case False
  with assms(1) have a: "assign_ar_leaf n ar = Inr n'" by (simp add: assign_ar_node_def)
  from assign_ar_leaf_step [OF a assms(2)] assign_ar_leaf_partitioner [OF a] False
  show ?thesis by (simp add: node_rel_def)
qed

lemma assign_ar_all_rel:
  assumes "assign_ar_group ns ar = Inr ns'"
    and "\<And>m i k. map_of ar m = Some (i, k) \<Longrightarrow> mg m = Some k"
  shows "list_all2 (node_rel (ar_step mg)) ns ns'"
proof -
  from assms(1) have "list_all2 (\<lambda>x y. assign_ar_node x ar = Inr y) ns ns'"
    unfolding assign_ar_group_def by (rule collect_Inr_all2)
  then show ?thesis
    using assign_ar_node_rel [where mg = mg and ar = ar] assms(2)
    by (fastforce elim!: list_all2_mono)
qed

lemma steps_assigned: "ps_step md l l1 \<Longrightarrow> ar_step mg l1 l2 \<Longrightarrow> assigned_leaf md mg l l2"
  by (auto simp: ps_step_def ar_step_def assigned_leaf_def
           split: option.splits synchronizer.splits)

lemma sample_merge_group_range:
  "sample_merge_group x n g = Inr (tmp, g')
   \<Longrightarrow> length tmp = n \<and> (\<forall>k \<in> set tmp. 0 \<le> k \<and> k < x)"
proof (induction n arbitrary: g tmp)
  case 0
  then show ?case by simp
next
  case (Suc n)
  from Suc.prems obtain k g1 ks where
    a: "uniform_sample_by_choices [0 .. x - 1] g = Inr (k, g1)"
    and b: "sample_merge_group x n g1 = Inr (ks, g')" and t: "tmp = k # ks"
    by (auto split: sum.splits)
  from uniform_member [OF a] have "0 \<le> k \<and> k < x" by simp
  with Suc.IH [OF b] t show ?case by simp
qed

subsection \<open>The post-assignment stage\<close>






lemma sample_ps_unfold:
  "sample_ps_reduction_destinations ext ns ps rs hs h g
   = (case sampled_destinations ext h ps rs hs g of
        Inl e \<Rightarrow> Inl e
      | Inr (D, g1) \<Rightarrow>
          (case attach ps D of
             Inl e \<Rightarrow> Inl e
           | Inr ps' \<Rightarrow>
               (case assign_ps_reduction_destinations ns ps' of
                  Inl e \<Rightarrow> Inl e
                | Inr ns' \<Rightarrow> Inr (ns', g1))))"
  unfolding sample_ps_reduction_destinations_def sampled_destinations_def Let_def ..

lemma sample_ar_unfold:
  "sample_ar_groups ext ns ar hs h g
   = (case chunk_size_or_num_group h ar g of
        Inl e \<Rightarrow> Inl e
      | Inr (x, g1) \<Rightarrow>
          if \<not> x > 0 then Inl AssertionError
          else
            (case sampled_groups ext h ar hs x g1 of
               Inl e \<Rightarrow> Inl e
             | Inr (G, g2) \<Rightarrow>
                 (case attach ar G of
                    Inl e \<Rightarrow> Inl e
                  | Inr ar' \<Rightarrow>
                      (case assign_ar_group ns ar' of
                         Inl e \<Rightarrow> Inl e
                       | Inr ns' \<Rightarrow> Inr (ns', g2)))))"
  unfolding sample_ar_groups_def sampled_groups_def Let_def ..

lemma ps_phase:
  assumes "sample_ps_reduction_destinations ext ns ps rs hs h g = Inr (ns1, g1)"
  shows "\<exists>D. sampled_destinations ext h ps rs hs g = Inr (D, g1)
             \<and> list_all2 (node_rel (ps_step (map_of D))) ns ns1"
proof -
  from assms obtain D ps' where
    p: "sampled_destinations ext h ps rs hs g = Inr (D, g1)" and a: "attach ps D = Inr ps'"
    and s: "assign_ps_reduction_destinations ns ps' = Inr ns1"
    unfolding sample_ps_unfold by (auto split: sum.splits)
  have "map_of D m = Some d" if "map_of ps' m = Some (i, d)" for m i d
    using a that by (rule attach_lookup)
  with assign_ps_all_rel [OF s] have "list_all2 (node_rel (ps_step (map_of D))) ns ns1"
    by blast
  with p show ?thesis by blast
qed

lemma ar_phase:
  assumes "sample_ar_groups ext ns ar hs h g = Inr (ns1, g1)"
  shows "\<exists>x gb G. chunk_size_or_num_group h ar g = Inr (x, gb) \<and> 0 < x
             \<and> sampled_groups ext h ar hs x gb = Inr (G, g1)
             \<and> list_all2 (node_rel (ar_step (map_of G))) ns ns1"
proof -
  from assms obtain x gb where
    x: "chunk_size_or_num_group h ar g = Inr (x, gb)" and pos: "0 < x"
    unfolding sample_ar_unfold by (auto split: sum.splits if_splits)
  with assms obtain G ar' where
    p: "sampled_groups ext h ar hs x gb = Inr (G, g1)" and a: "attach ar G = Inr ar'"
    and s: "assign_ar_group ns ar' = Inr ns1"
    unfolding sample_ar_unfold by (auto split: sum.splits)
  have "map_of G m = Some k" if "map_of ar' m = Some (i, k)" for m i k
    using a that by (rule attach_lookup)
  with assign_ar_all_rel [OF s] have "list_all2 (node_rel (ar_step (map_of G))) ns ns1"
    by blast
  with x pos p show ?thesis by blast
qed



text \<open>
  The structure of a run, without the contract of the other modules: pools, sampled
  dictionaries, random sources in between, and the write-back.
\<close>

lemma post_assignment_structure:
  assumes run: "sample_group_and_reduction_destinations ext ns rs hs h g = Inr (ns2, g2)"
  shows "\<exists>ps ar idx D g1 G.
           pool_nodes ns ([], [], 0) = Inr (ps, ar, idx)
         \<and> (\<forall>l \<in> set (leaves ns). pooled ps ar l)
         \<and> (if ps = [] then D = [] \<and> g1 = g
             else sampled_destinations ext h ps rs hs g = Inr (D, g1))
         \<and> (if ar = [] then G = [] \<and> g2 = g1
             else (\<exists>x gb. chunk_size_or_num_group h ar g1 = Inr (x, gb) \<and> 0 < x
                          \<and> sampled_groups ext h ar hs x gb = Inr (G, g2)))
         \<and> list_all2 (node_rel (assigned_leaf (map_of D) (map_of G))) ns ns2"
proof -
  from run obtain ps ar idx where pool: "pool_nodes ns ([], [], 0) = Inr (ps, ar, idx)"
    by (auto simp: sample_group_and_reduction_destinations_def split: sum.splits)
  from pool_nodes_pooled [OF pool] have pooled: "\<forall>l \<in> set (leaves ns). pooled ps ar l"
    by simp
  from run pool obtain ns1 g1 where
    r1: "(if length ps > 0 then sample_ps_reduction_destinations ext ns ps rs hs h g
          else Inr (ns, g)) = Inr (ns1, g1)"
    and r2: "(if length ar > 0 then sample_ar_groups ext ns1 ar hs h g1 else Inr (ns1, g1))
             = Inr (ns2, g2)"
    by (auto simp: sample_group_and_reduction_destinations_def split: sum.splits)
  have "\<exists>D. (if ps = [] then D = [] \<and> g1 = g
             else sampled_destinations ext h ps rs hs g = Inr (D, g1))
            \<and> list_all2 (node_rel (ps_step (map_of D))) ns ns1"
  proof (cases "ps = []")
    case True
    with r1 have e: "ns1 = ns" "g1 = g" by simp_all
    have "ps_step (map_of []) l l" if "l \<in> set (leaves ns)" for l
    proof -
      from pooled that have "pooled ps ar l" by blast
      with True show ?thesis
        by (cases "synchronizer l")
           (auto simp: pooled_def ps_step_def split: synchronizer.splits)
    qed
    then have "list_all2 (node_rel (ps_step (map_of []))) ns ns" by (rule node_rel_same)
    with True e show ?thesis by auto
  next
    case False
    with r1 have "sample_ps_reduction_destinations ext ns ps rs hs h g = Inr (ns1, g1)"
      by simp
    from ps_phase [OF this] False show ?thesis by auto
  qed
  then obtain D where
    d: "if ps = [] then D = [] \<and> g1 = g
        else sampled_destinations ext h ps rs hs g = Inr (D, g1)"
    and s1: "list_all2 (node_rel (ps_step (map_of D))) ns ns1"
    by blast
  from s1 have l1: "list_all2 (ps_step (map_of D)) (leaves ns) (leaves ns1)"
    by (rule leaves_rel)
  have "\<exists>G. (if ar = [] then G = [] \<and> g2 = g1
             else (\<exists>x gb. chunk_size_or_num_group h ar g1 = Inr (x, gb) \<and> 0 < x
                          \<and> sampled_groups ext h ar hs x gb = Inr (G, g2)))
            \<and> list_all2 (node_rel (ar_step (map_of G))) ns1 ns2"
  proof (cases "ar = []")
    case True
    with r2 have e: "ns2 = ns1" "g2 = g1" by simp_all
    have "ar_step (map_of []) a a" if m: "a \<in> set (leaves ns1)" for a
    proof -
      from list_all2_pre [OF l1 m] obtain l where
        l: "l \<in> set (leaves ns)" "ps_step (map_of D) l a" by blast
      from pooled l(1) have "pooled ps ar l" by blast
      with True l(2) show ?thesis
        by (cases "synchronizer l")
           (auto simp: pooled_def ps_step_def ar_step_def split: synchronizer.splits)
    qed
    then have "list_all2 (node_rel (ar_step (map_of []))) ns1 ns1" by (rule node_rel_same)
    with True e show ?thesis by auto
  next
    case False
    with r2 have "sample_ar_groups ext ns1 ar hs h g1 = Inr (ns2, g2)" by simp
    from ar_phase [OF this] False show ?thesis by auto
  qed
  then obtain G where
    gg: "if ar = [] then G = [] \<and> g2 = g1
         else (\<exists>x gb. chunk_size_or_num_group h ar g1 = Inr (x, gb) \<and> 0 < x
                      \<and> sampled_groups ext h ar hs x gb = Inr (G, g2))"
    and s2: "list_all2 (node_rel (ar_step (map_of G))) ns1 ns2"
    by blast
  from s1 s2 have "list_all2 (node_rel (assigned_leaf (map_of D) (map_of G))) ns ns2"
    by (rule node_rel_comp) (rule steps_assigned)
  with pool pooled d gg show ?thesis by blast
qed



lemma build_Inr_post:
  "build ext self variables rs g = (Inr (strategy, g'), self')
   \<Longrightarrow> \<exists>ns hs g1.
         build_vars ext (self_space self) (self_heuristics self) rs variables
           (self_helpers self) [] g = (Inr (ns, g1), hs)
       \<and> sample_group_and_reduction_destinations ext ns rs hs (self_heuristics self) g1
           = Inr (strategy_node_config strategy, g')"
  by (auto simp: build_def Let_def split: prod.splits sum.splits)


subsection \<open>The local-replication flag of a centralized record\<close>

lemma decision_flag:
  "sample_if_local_replication opts rs g = Inr (b, g')
   \<Longrightarrow> (if num_gpus rs \<le> num_cpus rs then b = False else b \<in> set opts)"
  by (auto simp: sample_if_local_replication_def dest: uniform_member split: if_splits)

lemma fill_flag_decision:
  "fill_synchronizer t l rs sp g = Inr (l', g') \<Longrightarrow> synchronizer l' = Some (PS p)
   \<Longrightarrow> sample_if_local_replication (space_local_replication sp) rs g
         = Inr (local_replication p, g')"
  by (auto simp: fill_synchronizer_def split: if_splits sum.splits)

lemma fill_flag_ok:
  assumes "fill_synchronizer t l rs sp g = Inr (l', g')"
  shows "flag_ok rs sp (leaf_of l')"
proof (cases "synchronizer l'")
  case None
  then show ?thesis by (simp add: flag_ok_def)
next
  case (Some s)
  show ?thesis
  proof (cases s)
    case (AR a)
    with Some show ?thesis by (simp add: flag_ok_def)
  next
    case (PS p)
    with Some have "synchronizer l' = Some (PS p)" by simp
    from decision_flag [OF fill_flag_decision [OF assms this]] Some PS
    show ?thesis by (simp add: flag_ok_def)
  qed
qed

lemma fill_parts_decision:
  "fill_parts xs rs sp g = Inr (parts', g') \<Longrightarrow> part \<in> set parts'
   \<Longrightarrow> synchronizer part = Some (PS p)
   \<Longrightarrow> \<exists>g0 g1. sample_if_local_replication (space_local_replication sp) rs g0
                   = Inr (local_replication p, g1)"
proof (induction xs rs sp g arbitrary: parts' rule: fill_parts.induct)
  case (1 rs sp g)
  then show ?case by simp
next
  case (2 a t rest rs sp g)
  from "2.prems"(1) obtain a' g1 rest' where
    f: "fill_synchronizer t a rs sp g = Inr (a', g1)"
    and r: "fill_parts rest rs sp g1 = Inr (rest', g')" and p: "parts' = a' # rest'"
    by (auto split: sum.splits)
  from "2.prems"(2) p have "part = a' \<or> part \<in> set rest'" by simp
  then show ?case
  proof
    assume "part = a'"
    with fill_flag_decision [OF f] "2.prems"(3) show ?thesis by blast
  next
    assume "part \<in> set rest'"
    with "2.IH" [OF f refl r] "2.prems"(3) show ?thesis by blast
  qed
qed

lemma fill_parts_flag_ok:
  assumes "fill_parts xs rs sp g = Inr (parts', g')" and "part \<in> set parts'"
  shows "flag_ok rs sp part"
proof (cases "synchronizer part")
  case None
  then show ?thesis by (simp add: flag_ok_def)
next
  case (Some s)
  show ?thesis
  proof (cases s)
    case (AR a)
    with Some show ?thesis by (simp add: flag_ok_def)
  next
    case (PS p)
    with Some have "synchronizer part = Some (PS p)" by simp
    from fill_parts_decision [OF assms this] obtain g0 g1 where
      "sample_if_local_replication (space_local_replication sp) rs g0
         = Inr (local_replication p, g1)"
      by blast
    from decision_flag [OF this] Some PS show ?thesis by (simp add: flag_ok_def)
  qed
qed

lemma var_stage_fill:
  "sample_var_synchronizer node vh rs sp g = Inr (node', g')
   \<Longrightarrow> \<exists>t g0. fill_synchronizer t node rs sp g0 = Inr (node', g')"
  by (auto simp: sample_var_synchronizer_def split: sum.splits if_splits)

lemma parts_stage_fill:
  "sample_parts_synchronizers parts vh rs sp h g = Inr (parts', g')
   \<Longrightarrow> \<exists>xs g0. fill_parts xs rs sp g0 = Inr (parts', g')"
  by (auto simp: sample_parts_synchronizers_def split: sum.splits if_splits)

lemma fill_synchronizer_partitioner:
  "fill_synchronizer t (n :: Node) rs sp g = Inr (n', g')
   \<Longrightarrow> partitioner n' = partitioner n \<and> part_config n' = part_config n"
  by (auto simp: fill_synchronizer_def split: if_splits sum.splits)

lemma build_var_flags:
  assumes "build_var ext sp h rs v hs g = (Inr (node, g'), hs')"
  shows "\<forall>l \<in> set (leaves [node]). flag_ok rs sp l"
proof -
  let ?vh = "VariableHelper_init v"
  from assms obtain m g1 where
    m: "sample_if_partition ?vh rs sp h g = Inr (m, g1)"
    by (auto simp: build_var_def Let_def split: sum.splits)
  show ?thesis
  proof (cases "truthy m")
    case False
    with assms m have "sample_var_synchronizer (new_node (name v)) ?vh rs sp g1 = Inr (node, g')"
      by (auto simp: build_var_def Let_def split: sum.splits)
    from var_stage_fill [OF this] obtain t g0 where
      f: "fill_synchronizer t (new_node (name v)) rs sp g0 = Inr (node, g')" by blast
    from fill_synchronizer_partitioner [OF f] have "partitioner node = []"
      by (simp add: new_node_def)
    with fill_flag_ok [OF f] show ?thesis by (simp add: leaves_def)
  next
    case True
    with assms m obtain c g2 where
      c: "sample_partition_config ?vh rs sp h g1 = Inr (c, g2)"
      by (auto simp: build_var_def Let_def split: sum.splits)
    with assms m True obtain parts' where
      s: "sample_parts_synchronizers
            (map new_part (map (part_name ext (name v)) [0 ..< nat (num_shards c)]))
            ?vh rs sp h g2 = Inr (parts', g')"
      and n: "node = (new_node (name v))\<lparr>partitioner := partition_list c, part_config := parts'\<rparr>"
      by (auto simp: build_var_def Let_def split: sum.splits)
    from parts_stage_fill [OF s] obtain xs g0 where
      f: "fill_parts xs rs sp g0 = Inr (parts', g')" by blast
    have "flag_ok rs sp part" if "part \<in> set parts'" for part
      using f that by (rule fill_parts_flag_ok)
    moreover have "flag_ok rs sp (leaf_of node)"
      by (simp add: n new_node_def flag_ok_def)
    moreover have "part_config node = parts'" by (simp add: n)
    ultimately show ?thesis by (auto simp: leaves_def)
  qed
qed

lemma build_vars_flags:
  "\<forall>l \<in> set (leaves nodes). flag_ok rs sp l
   \<Longrightarrow> build_vars ext sp h rs vs hs nodes g = (Inr (ns, g'), hs')
   \<Longrightarrow> \<forall>l \<in> set (leaves ns). flag_ok rs sp l"
proof (induction vs arbitrary: hs nodes g)
  case Nil
  then show ?case by simp
next
  case (Cons v vs)
  from Cons.prems(2) obtain node g1 hs1 where
    b: "build_var ext sp h rs v hs g = (Inr (node, g1), hs1)"
    and r: "build_vars ext sp h rs vs hs1 (nodes @ [node]) g1 = (Inr (ns, g'), hs')"
    by (auto split: prod.splits sum.splits)
  from build_var_flags [OF b] Cons.prems(1)
  have "\<forall>l \<in> set (leaves (nodes @ [node])). flag_ok rs sp l"
    by (auto simp: leaves_append)
  from Cons.IH [OF this r] show ?case .
qed

lemma assigned_keeps_flag:
  "assigned_leaf md mg l l2 \<Longrightarrow> flag_ok rs sp l \<Longrightarrow> flag_ok rs sp l2"
  by (auto simp: assigned_leaf_def flag_ok_def split: option.splits synchronizer.splits)

lemma post_assignment_keeps_flags:
  assumes "sample_group_and_reduction_destinations ext ns rs hs h g = Inr (ns2, g2)"
    and "\<forall>l \<in> set (leaves ns). flag_ok rs sp l"
  shows "\<forall>l \<in> set (leaves ns2). flag_ok rs sp l"
proof
  fix b assume m: "b \<in> set (leaves ns2)"
  from post_assignment_structure [OF assms(1)] obtain D G where
    "list_all2 (node_rel (assigned_leaf (map_of D) (map_of G))) ns ns2"
    by blast
  then have "list_all2 (assigned_leaf (map_of D) (map_of G)) (leaves ns) (leaves ns2)"
    by (rule leaves_rel)
  from list_all2_pre [OF this m] obtain a where
    a: "a \<in> set (leaves ns)" "assigned_leaf (map_of D) (map_of G) a b" by blast
  from a(2) assms(2) a(1) show "flag_ok rs sp b" by (blast intro: assigned_keeps_flag)
qed

text \<open>
  C8. The decision: when the accelerator count is at most the aggregation-compute-device
  count it is \<open>False\<close> for every option set, and no randomness is consulted; otherwise
  it is the uniform choice from the option set, a member of the set, and every member
  is drawn by some run of the random source. The records: the flag of a centralized
  record that \<open>sample_var_synchronizer\<close> returns is the value the decision returned,
  so it is \<open>False\<close> in the first case and a member of the space's option set in the
  second; the same holds of every centralized shard that
  \<open>sample_parts_synchronizers\<close> returns; the post-assignment stage keeps the flags; and
  every centralized leaf record of a strategy that \<open>build\<close> returns has its flag so.
\<close>

theorem local_replication_decision:
  fixes node :: Node
  shows
  "(num_gpus rs \<le> num_cpus rs \<longrightarrow>
      sample_if_local_replication opts rs g = Inr (False, g))
   \<and> (\<not> num_gpus rs \<le> num_cpus rs \<longrightarrow>
      sample_if_local_replication opts rs g = uniform_sample_by_choices opts g
      \<and> (\<forall>b g'. sample_if_local_replication opts rs g = Inr (b, g') \<longrightarrow> b \<in> set opts)
      \<and> (\<forall>b \<in> set opts. \<exists>t t'. sample_if_local_replication opts rs t = Inr (b, t')))
   \<and> (\<forall>node' g' p.
         sample_var_synchronizer node vh rs sp g = Inr (node', g')
         \<and> synchronizer node' = Some (PS p)
         \<longrightarrow> (\<exists>g0. sample_if_local_replication (space_local_replication sp) rs g0
                      = Inr (local_replication p, g'))
           \<and> (if num_gpus rs \<le> num_cpus rs then local_replication p = False
               else local_replication p \<in> set (space_local_replication sp)))
   \<and> (\<forall>parts' g' part p.
         sample_parts_synchronizers parts vh rs sp h g = Inr (parts', g')
         \<and> part \<in> set parts' \<and> synchronizer part = Some (PS p)
         \<longrightarrow> (\<exists>g0 g1. sample_if_local_replication (space_local_replication sp) rs g0
                         = Inr (local_replication p, g1))
           \<and> (if num_gpus rs \<le> num_cpus rs then local_replication p = False
               else local_replication p \<in> set (space_local_replication sp)))
   \<and> (\<forall>ns2 g2.
         sample_group_and_reduction_destinations ext ns rs hs h g = Inr (ns2, g2)
         \<and> (\<forall>l \<in> set (leaves ns). flag_ok rs sp l)
         \<longrightarrow> (\<forall>l \<in> set (leaves ns2). flag_ok rs sp l))
   \<and> (\<forall>strategy g' self'.
         build ext self vs rs g = (Inr (strategy, g'), self')
         \<longrightarrow> (\<forall>l \<in> set (leaves (strategy_node_config strategy)).
               flag_ok rs (self_space self) l))"
proof -
  have 1: "(num_gpus rs \<le> num_cpus rs \<longrightarrow>
      sample_if_local_replication opts rs g = Inr (False, g))
   \<and> (\<not> num_gpus rs \<le> num_cpus rs \<longrightarrow>
      sample_if_local_replication opts rs g = uniform_sample_by_choices opts g
      \<and> (\<forall>b g'. sample_if_local_replication opts rs g = Inr (b, g') \<longrightarrow> b \<in> set opts)
      \<and> (\<forall>b \<in> set opts. \<exists>t t'. sample_if_local_replication opts rs t = Inr (b, t')))"
    by (auto simp: sample_if_local_replication_def dest: uniform_member uniform_attain)
  have 3: "(\<exists>g0. sample_if_local_replication (space_local_replication sp) rs g0
                      = Inr (local_replication p, g'))
           \<and> (if num_gpus rs \<le> num_cpus rs then local_replication p = False
               else local_replication p \<in> set (space_local_replication sp))"
    if "sample_var_synchronizer node vh rs sp g = Inr (node', g')"
      "synchronizer node' = Some (PS p)" for node' g' p
  proof -
    from var_stage_fill [OF that(1)] obtain t g0 where
      "fill_synchronizer t node rs sp g0 = Inr (node', g')" by blast
    from fill_flag_decision [OF this that(2)]
    have d: "sample_if_local_replication (space_local_replication sp) rs g0
               = Inr (local_replication p, g')" .
    from decision_flag [OF d] d show ?thesis by blast
  qed
  have 4: "(\<exists>g0 g1. sample_if_local_replication (space_local_replication sp) rs g0
                         = Inr (local_replication p, g1))
           \<and> (if num_gpus rs \<le> num_cpus rs then local_replication p = False
               else local_replication p \<in> set (space_local_replication sp))"
    if "sample_parts_synchronizers parts vh rs sp h g = Inr (parts', g')"
      "part \<in> set parts'" "synchronizer part = Some (PS p)" for parts' g' part p
  proof -
    from parts_stage_fill [OF that(1)] obtain xs g0 where
      "fill_parts xs rs sp g0 = Inr (parts', g')" by blast
    from fill_parts_decision [OF this that(2,3)] obtain ga gb where
      d: "sample_if_local_replication (space_local_replication sp) rs ga
               = Inr (local_replication p, gb)"
      by blast
    from decision_flag [OF d] d show ?thesis by blast
  qed
  have 5: "\<forall>l \<in> set (leaves ns2). flag_ok rs sp l"
    if "sample_group_and_reduction_destinations ext ns rs hs h g = Inr (ns2, g2)"
      "\<forall>l \<in> set (leaves ns). flag_ok rs sp l" for ns2 g2
    using that by (rule post_assignment_keeps_flags)
  have 6: "\<forall>l \<in> set (leaves (strategy_node_config strategy)). flag_ok rs (self_space self) l"
    if "build ext self vs rs g = (Inr (strategy, g'), self')" for strategy g' self'
  proof -
    from build_Inr_post [OF that] obtain ns0 hs0 g0 where
      b: "build_vars ext (self_space self) (self_heuristics self) rs vs
           (self_helpers self) [] g = (Inr (ns0, g0), hs0)"
      and r: "sample_group_and_reduction_destinations ext ns0 rs hs0 (self_heuristics self) g0
           = Inr (strategy_node_config strategy, g')"
      by blast
    have "\<forall>l \<in> set (leaves []). flag_ok rs (self_space self) l" by (simp add: leaves_def)
    from build_vars_flags [OF this b] have "\<forall>l \<in> set (leaves ns0). flag_ok rs (self_space self) l" .
    with r show ?thesis by (rule post_assignment_keeps_flags)
  qed
  from 1 3 4 5 6 show ?thesis by blast
qed

lemma example_flag_forced:
  "sample_var_synchronizer (new_node ''emb:0'')
     (VariableHelper_init \<lparr> name = ''emb:0'', grad_is_tensor = False,
        consumer_op_types = [''ResourceGather''], initial_value_shape = [100, 8],
        byte_size_load = 3200 \<rparr>)
     \<lparr> cpu_devices = [], gpu_devices = [], num_cpus = 4, num_gpus = 4 \<rparr>
     (default_space\<lparr>space_local_replication := [True]\<rparr>) [0]
   = Inr ((new_node ''emb:0'')\<lparr>synchronizer :=
            Some (PS \<lparr> reduction_destination = [], local_replication = False,
                       sync = True, staleness = 0 \<rparr>)\<rparr>, [0])"
  by code_simp

lemma example_flag_drawn:
  "sample_var_synchronizer (new_node ''emb:0'')
     (VariableHelper_init \<lparr> name = ''emb:0'', grad_is_tensor = False,
        consumer_op_types = [''ResourceGather''], initial_value_shape = [100, 8],
        byte_size_load = 3200 \<rparr>)
     \<lparr> cpu_devices = [], gpu_devices = [], num_cpus = 4, num_gpus = 8 \<rparr>
     (default_space\<lparr>space_local_replication := [True]\<rparr>) [0]
   = Inr ((new_node ''emb:0'')\<lparr>synchronizer :=
            Some (PS \<lparr> reduction_destination = [], local_replication = True,
                       sync = True, staleness = 0 \<rparr>)\<rparr>, [])"
  by code_simp

theorem local_replication_decision_witness:
  "sample_var_synchronizer (new_node ''emb:0'')
     (VariableHelper_init \<lparr> name = ''emb:0'', grad_is_tensor = False,
        consumer_op_types = [''ResourceGather''], initial_value_shape = [100, 8],
        byte_size_load = 3200 \<rparr>)
     \<lparr> cpu_devices = [], gpu_devices = [], num_cpus = 4, num_gpus = 4 \<rparr>
     (default_space\<lparr>space_local_replication := [True]\<rparr>) [0]
   = Inr ((new_node ''emb:0'')\<lparr>synchronizer :=
            Some (PS \<lparr> reduction_destination = [], local_replication = False,
                       sync = True, staleness = 0 \<rparr>)\<rparr>, [0])
   \<and> (\<exists>g0. sample_if_local_replication [True]
               \<lparr> cpu_devices = [], gpu_devices = [], num_cpus = 4, num_gpus = 4 \<rparr> g0
             = Inr (False, [0]))
   \<and> sample_var_synchronizer (new_node ''emb:0'')
     (VariableHelper_init \<lparr> name = ''emb:0'', grad_is_tensor = False,
        consumer_op_types = [''ResourceGather''], initial_value_shape = [100, 8],
        byte_size_load = 3200 \<rparr>)
     \<lparr> cpu_devices = [], gpu_devices = [], num_cpus = 4, num_gpus = 8 \<rparr>
     (default_space\<lparr>space_local_replication := [True]\<rparr>) [0]
   = Inr ((new_node ''emb:0'')\<lparr>synchronizer :=
            Some (PS \<lparr> reduction_destination = [], local_replication = True,
                       sync = True, staleness = 0 \<rparr>)\<rparr>, [])
   \<and> (\<exists>g0. sample_if_local_replication [True]
               \<lparr> cpu_devices = [], gpu_devices = [], num_cpus = 4, num_gpus = 8 \<rparr> g0
             = Inr (True, []))"
proof -
  let ?vh = "VariableHelper_init \<lparr> name = ''emb:0'', grad_is_tensor = False,
        consumer_op_types = [''ResourceGather''], initial_value_shape = [100, 8],
        byte_size_load = 3200 \<rparr>"
  let ?sp = "default_space\<lparr>space_local_replication := [True]\<rparr>"
  let ?r44 = "\<lparr> cpu_devices = [], gpu_devices = [], num_cpus = 4, num_gpus = 4 \<rparr>"
  let ?r48 = "\<lparr> cpu_devices = [], gpu_devices = [], num_cpus = 4, num_gpus = 8 \<rparr>"
  let ?pF = "\<lparr> reduction_destination = [], local_replication = False,
                       sync = True, staleness = 0 \<rparr>"
  let ?pT = "\<lparr> reduction_destination = [], local_replication = True,
                       sync = True, staleness = 0 \<rparr>"
  have sF: "synchronizer ((new_node ''emb:0'')\<lparr>synchronizer := Some (PS ?pF)\<rparr>) = Some (PS ?pF)"
    and sT: "synchronizer ((new_node ''emb:0'')\<lparr>synchronizer := Some (PS ?pT)\<rparr>) = Some (PS ?pT)"
    by simp_all
  note c44 = local_replication_decision
         [where node = "new_node ''emb:0''" and vh = ?vh and rs = ?r44 and sp = ?sp
            and g = "[0]", THEN conjunct2, THEN conjunct2, THEN conjunct1, rule_format]
  from c44 [OF conjI [OF example_flag_forced sF]]
  have "\<exists>g0. sample_if_local_replication (space_local_replication ?sp) ?r44 g0
             = Inr (local_replication ?pF, [0])"
    by (rule conjunct1)
  then have a: "\<exists>g0. sample_if_local_replication [True] ?r44 g0 = Inr (False, [0])"
    by simp
  note c48 = local_replication_decision
         [where node = "new_node ''emb:0''" and vh = ?vh and rs = ?r48 and sp = ?sp
            and g = "[0]", THEN conjunct2, THEN conjunct2, THEN conjunct1, rule_format]
  from c48 [OF conjI [OF example_flag_drawn sT]]
  have "\<exists>g0. sample_if_local_replication (space_local_replication ?sp) ?r48 g0
             = Inr (local_replication ?pT, [])"
    by (rule conjunct1)
  then have b: "\<exists>g0. sample_if_local_replication [True] ?r48 g0 = Inr (True, [])"
    by simp
  from a b example_flag_forced example_flag_drawn show ?thesis by blast
qed

subsection \<open>The reference instance meets the contract\<close>






subsection \<open>Runs of build on the example\<close>

lemma example_build:
  "build reference_externals example_sampler example_variables example_cluster [0, 1, 1, 0, 0, 0, 7]
   = (Inr (\<lparr> strategy_replicas = [''node0:GPU:0'', ''node0:GPU:1''],
              strategy_node_config =
                [\<lparr> var_name = ''emb:0'',
                   synchronizer = Some (PS \<lparr> reduction_destination = ''node0:CPU:0'',
                                             local_replication = False, sync = True,
                                             staleness = 0 \<rparr>),
                   partitioner = [], part_config = [] \<rparr>,
                 \<lparr> var_name = ''w:0'',
                   synchronizer = Some (AR \<lparr> spec = AUTO, compressor = NoneCompressor,
                                             group = 0 \<rparr>),
                   partitioner = [], part_config = [] \<rparr>] \<rparr>, [0, 0, 7]),
      example_sampler)"
  by code_simp



subsection \<open>The sharding branch of build\<close>

text \<open>
  The view that \<open>build\<close> constructs does not answer \<open>partitionable_axis\<close>, so the
  sharding branch of the loop body always ends in AttributeError: a node that the loop
  body returns is never sharded.
\<close>

lemma build_var_unsharded:
  assumes "build_var ext sp h rs v hs g = (Inr (node, g'), hs')"
  shows "partitioner node = [] \<and> part_config node = []"
proof -
  from assms obtain t g1 g2 where
    "fill_synchronizer t (new_node (name v)) rs sp g1 = Inr (node, g2)"
    by (auto simp: build_var_def Let_def sample_partition_config_no_attribute
          sample_var_synchronizer_def split: sum.splits if_splits prod.splits)
  from fill_synchronizer_partitioner [OF this] show ?thesis by (simp add: new_node_def)
qed

subsection \<open>The helpers dictionary across a call of build\<close>

lemma fold_update_keys:
  "fst ` set hs \<subseteq> fst ` set (fold (\<lambda>(n, p). AList.update n (f p)) xs hs)"
proof (induction xs arbitrary: hs)
  case Nil
  then show ?case by simp
next
  case (Cons x xs)
  obtain n p where x: "x = (n, p)" by (cases x)
  have "fst ` set hs \<subseteq> fst ` set (AList.update n (f p) hs)" by (auto simp: dom_update)
  also have "\<dots> \<subseteq> fst ` set (fold (\<lambda>(n, p). AList.update n (f p)) xs (AList.update n (f p) hs))"
    by (rule Cons.IH)
  finally show ?case by (simp add: x)
qed

lemma build_var_keys:
  "insert (name v) (fst ` set hs) \<subseteq> fst ` set (snd (build_var ext sp h rs v hs g))"
proof -
  let ?hs1 = "AList.update (name v) (VarHelper (VariableHelper_init v)) hs"
  have k1: "insert (name v) (fst ` set hs) \<subseteq> fst ` set ?hs1" by (auto simp: dom_update)
  have "snd (build_var ext sp h rs v hs g) = ?hs1
        \<or> (\<exists>xs. snd (build_var ext sp h rs v hs g)
                  = fold (\<lambda>(n, p). AList.update n (ShardHelper p)) xs ?hs1)"
    by (auto simp: build_var_def Let_def split: sum.splits prod.splits)
  then show ?thesis
  proof
    assume "snd (build_var ext sp h rs v hs g) = ?hs1"
    with k1 show ?thesis by simp
  next
    assume "\<exists>xs. snd (build_var ext sp h rs v hs g)
                  = fold (\<lambda>(n, p). AList.update n (ShardHelper p)) xs ?hs1"
    then obtain xs where
      e: "snd (build_var ext sp h rs v hs g)
            = fold (\<lambda>(n, p). AList.update n (ShardHelper p)) xs ?hs1"
      by blast
    from fold_update_keys [of ?hs1 ShardHelper xs] k1 show ?thesis
      unfolding e by (rule subset_trans [rotated])
  qed
qed

lemma build_vars_keys:
  "fst ` set hs \<subseteq> fst ` set (snd (build_vars ext sp h rs vs hs ns g))"
proof (induction vs arbitrary: hs ns g)
  case Nil
  then show ?case by simp
next
  case (Cons v vs)
  obtain r hs1 where b: "build_var ext sp h rs v hs g = (r, hs1)"
    by (cases "build_var ext sp h rs v hs g")
  from build_var_keys [of v hs ext sp h rs g] b have k: "fst ` set hs \<subseteq> fst ` set hs1"
    by simp
  show ?case
  proof (cases r)
    case (Inl e)
    with b k show ?thesis by simp
  next
    case (Inr ng)
    obtain node g1 where ng: "ng = (node, g1)" by (cases ng)
    from Cons.IH [of hs1 "ns @ [node]" g1] k b Inr ng show ?thesis
      by (simp; blast intro: subset_trans)
  qed
qed

lemma build_vars_first_key:
  "name v \<in> fst ` set (snd (build_vars ext sp h rs (v # vs) hs ns g))"
proof -
  obtain r hs1 where b: "build_var ext sp h rs v hs g = (r, hs1)"
    by (cases "build_var ext sp h rs v hs g")
  from build_var_keys [of v hs ext sp h rs g] b have k: "name v \<in> fst ` set hs1"
    by simp
  show ?thesis
  proof (cases r)
    case (Inl e)
    with b k show ?thesis by simp
  next
    case (Inr ng)
    obtain node g1 where ng: "ng = (node, g1)" by (cases ng)
    from build_vars_keys [of hs1 ext sp h rs vs "ns @ [node]" g1] k b Inr ng
    show ?thesis by auto
  qed
qed

lemma build_helpers:
  "self_helpers (snd (build ext self vs rs g))
     = (case fst (build ext self vs rs g) of
          Inl e \<Rightarrow> snd (build_vars ext (self_space self) (self_heuristics self) rs vs
                          (self_helpers self) [] g)
        | Inr r \<Rightarrow> [])"
  by (auto simp: build_def Let_def reset_def split: prod.splits sum.splits)

lemma build_no_variables:
  "fst (build ext self [] rs g) = Inr (\<lparr> strategy_replicas = map fst (gpu_devices rs),
                                          strategy_node_config = [] \<rparr>, g)"
  by (simp add: build_def sample_group_and_reduction_destinations_def)

text \<open>
  C9, as stated, fails: with the unrecognised load balancer \<open>'LP'\<close> the call raises
  ValueError after the view of the parameter has been recorded, and the helpers
  dictionary of the sampler is not empty when the call ends.
\<close>

theorem helpers_kept_on_error_counterexample:
  "build reference_externals
     (example_sampler\<lparr>self_heuristics :=
        (self_heuristics example_sampler)\<lparr>ps_load_balancer := Some ''LP''\<rparr>\<rparr>)
     [\<lparr> name = ''emb:0'', grad_is_tensor = False, consumer_op_types = [''ResourceGather''],
        initial_value_shape = [100, 8], byte_size_load = 3200 \<rparr>]
     (example_cluster\<lparr>num_gpus := 1\<rparr>) []
   = (Inl ValueError,
      example_sampler\<lparr>self_heuristics :=
          (self_heuristics example_sampler)\<lparr>ps_load_balancer := Some ''LP''\<rparr>,
        self_helpers :=
          [(''emb:0'', VarHelper (VariableHelper_init
              \<lparr> name = ''emb:0'', grad_is_tensor = False,
                consumer_op_types = [''ResourceGather''],
                initial_value_shape = [100, 8], byte_size_load = 3200 \<rparr>))]\<rparr>)"
  by code_simp

text \<open>
  C9, amended. A call of \<open>build\<close> that returns a strategy leaves the sampler with an
  empty helpers dictionary; no call changes the space or the heuristics. A call that
  fails with an error does not clear the dictionary: it had at least one parameter to
  process, every name recorded before the call is still a key, and so is the name of
  the first parameter.
\<close>

theorem helpers_after_build:
  "(\<forall>r. fst (build ext self vs rs g) = Inr r
        \<longrightarrow> snd (build ext self vs rs g) = self\<lparr>self_helpers := []\<rparr>)
   \<and> (\<forall>e. fst (build ext self vs rs g) = Inl e
        \<longrightarrow> vs \<noteq> []
          \<and> name (hd vs) \<in> fst ` set (self_helpers (snd (build ext self vs rs g)))
          \<and> fst ` set (self_helpers self)
              \<subseteq> fst ` set (self_helpers (snd (build ext self vs rs g))))
   \<and> self_space (snd (build ext self vs rs g)) = self_space self
   \<and> self_heuristics (snd (build ext self vs rs g)) = self_heuristics self"
proof -
  have 1: "\<forall>r. fst (build ext self vs rs g) = Inr r
        \<longrightarrow> snd (build ext self vs rs g) = self\<lparr>self_helpers := []\<rparr>"
    by (auto simp: build_def Let_def reset_def split: prod.splits sum.splits)
  have 2: "vs \<noteq> []
          \<and> name (hd vs) \<in> fst ` set (self_helpers (snd (build ext self vs rs g)))
          \<and> fst ` set (self_helpers self)
              \<subseteq> fst ` set (self_helpers (snd (build ext self vs rs g)))"
    if f: "fst (build ext self vs rs g) = Inl e" for e
  proof -
    from f have ne: "vs \<noteq> []" using build_no_variables [of ext self rs g] by auto
    then obtain v vs' where v: "vs = v # vs'" by (cases vs) auto
    from f have h: "self_helpers (snd (build ext self vs rs g))
        = snd (build_vars ext (self_space self) (self_heuristics self) rs vs
                 (self_helpers self) [] g)"
      by (simp add: build_helpers)
    show ?thesis
      unfolding h using ne build_vars_keys build_vars_first_key
      by (simp add: v del: build_vars.simps)
  qed
  have 3: "self_space (snd (build ext self vs rs g)) = self_space self
         \<and> self_heuristics (snd (build ext self vs rs g)) = self_heuristics self"
    by (auto simp: build_def Let_def reset_def split: prod.splits sum.splits)
  from 1 2 3 show ?thesis by blast
qed

lemma example_failing_build:
  "fst (build reference_externals
     (example_sampler\<lparr>self_heuristics :=
        (self_heuristics example_sampler)\<lparr>ps_load_balancer := Some ''LP''\<rparr>\<rparr>)
     example_variables (example_cluster\<lparr>num_gpus := 1\<rparr>) [1, 1]) = Inl ValueError"
  by code_simp

theorem helpers_after_build_witness:
  "snd (build reference_externals example_sampler example_variables example_cluster
          [0, 1, 1, 0, 0, 0, 7]) = example_sampler\<lparr>self_helpers := []\<rparr>
   \<and> example_variables \<noteq> []
   \<and> name (hd example_variables)
       \<in> fst ` set (self_helpers (snd (build reference_externals
             (example_sampler\<lparr>self_heuristics :=
                (self_heuristics example_sampler)\<lparr>ps_load_balancer := Some ''LP''\<rparr>\<rparr>)
             example_variables (example_cluster\<lparr>num_gpus := 1\<rparr>) [1, 1])))"
proof -
  have ok: "fst (build reference_externals example_sampler example_variables example_cluster
                   [0, 1, 1, 0, 0, 0, 7])
            = Inr (\<lparr> strategy_replicas = [''node0:GPU:0'', ''node0:GPU:1''],
              strategy_node_config =
                [\<lparr> var_name = ''emb:0'',
                   synchronizer = Some (PS \<lparr> reduction_destination = ''node0:CPU:0'',
                                             local_replication = False, sync = True,
                                             staleness = 0 \<rparr>),
                   partitioner = [], part_config = [] \<rparr>,
                 \<lparr> var_name = ''w:0'',
                   synchronizer = Some (AR \<lparr> spec = AUTO, compressor = NoneCompressor,
                                             group = 0 \<rparr>),
                   partitioner = [], part_config = [] \<rparr>] \<rparr>, [0, 0, 7])"
    by (subst example_build) simp
  from helpers_after_build
         [of reference_externals example_sampler example_variables example_cluster
             "[0, 1, 1, 0, 0, 0, 7]"] ok
  have a: "snd (build reference_externals example_sampler example_variables example_cluster
          [0, 1, 1, 0, 0, 0, 7]) = example_sampler\<lparr>self_helpers := []\<rparr>"
    by blast
  from helpers_after_build
         [of reference_externals
             "example_sampler\<lparr>self_heuristics :=
                (self_heuristics example_sampler)\<lparr>ps_load_balancer := Some ''LP''\<rparr>\<rparr>"
             example_variables "example_cluster\<lparr>num_gpus := 1\<rparr>" "[1, 1]"]
       example_failing_build
  have b: "example_variables \<noteq> []
   \<and> name (hd example_variables)
       \<in> fst ` set (self_helpers (snd (build reference_externals
             (example_sampler\<lparr>self_heuristics :=
                (self_heuristics example_sampler)\<lparr>ps_load_balancer := Some ''LP''\<rparr>\<rparr>)
             example_variables (example_cluster\<lparr>num_gpus := 1\<rparr>) [1, 1])))"
    by blast
  from a b show ?thesis by blast
qed

subsection \<open>Grouping without a scheme\<close>

lemma sample_num_ar_groups_positive:
  "sample_num_ar_groups ar lb ub g = Inr (k, g1) \<Longrightarrow> 0 < k"
  by (auto simp: sample_num_ar_groups_def dest!: uniform_member)

text \<open>
  C10. With \<open>merge_scheme\<close> \<open>None\<close> the decentralized pool is grouped exactly as under
  \<open>'random'\<close>, whatever \<open>chunk_size\<close> holds in either configuration: the group count is
  the uniform choice from \<open>[max 1 lb .. min n ub]\<close> for the pool size \<open>n\<close> and the group
  bounds \<open>(lb, ub)\<close>; the run is that draw followed by the random partition of the pool
  into that many groups and the write-back; and the random partition gives each of the
  \<open>n\<close> records one group id in \<open>[0, k)\<close>.
\<close>

theorem no_scheme_groups_as_random:
  "sample_ar_groups ext ns ar hs (h\<lparr>merge_scheme := None, chunk_size := c\<rparr>) g
     = sample_ar_groups ext ns ar hs (h\<lparr>merge_scheme := Some ''random'', chunk_size := c'\<rparr>) g
   \<and> chunk_size_or_num_group (h\<lparr>merge_scheme := None, chunk_size := c\<rparr>) ar g
     = uniform_sample_by_choices
         [max 1 (fst (num_group_bounds h)) .. min (int (length ar)) (snd (num_group_bounds h))] g
   \<and> sample_ar_groups ext ns ar hs (h\<lparr>merge_scheme := None, chunk_size := c\<rparr>) g
     = (case uniform_sample_by_choices
              [max 1 (fst (num_group_bounds h))
                 .. min (int (length ar)) (snd (num_group_bounds h))] g of
          Inl e \<Rightarrow> Inl e
        | Inr (k, g1) \<Rightarrow>
            (case sample_merge_group k (length ar) g1 of
               Inl e \<Rightarrow> Inl e
             | Inr (tmp, g2) \<Rightarrow>
                 (case attach ar (zip (map fst ar) tmp) of
                    Inl e \<Rightarrow> Inl e
                  | Inr ar' \<Rightarrow>
                      (case assign_ar_group ns ar' of
                         Inl e \<Rightarrow> Inl e
                       | Inr ns' \<Rightarrow> Inr (ns', g2)))))
   \<and> (\<forall>k tmp g1 g2. sample_merge_group k (length ar) g1 = Inr (tmp, g2)
         \<longrightarrow> length tmp = length ar \<and> (\<forall>j \<in> set tmp. 0 \<le> j \<and> j < k))"
proof -
  let ?h = "h\<lparr>merge_scheme := None, chunk_size := c\<rparr>"
  let ?u = "uniform_sample_by_choices
         [max 1 (fst (num_group_bounds h)) .. min (int (length ar)) (snd (num_group_bounds h))] g"
  have 1: "sample_ar_groups ext ns ar hs ?h g
     = sample_ar_groups ext ns ar hs (h\<lparr>merge_scheme := Some ''random'', chunk_size := c'\<rparr>) g"
    by (auto simp: sample_ar_groups_def chunk_size_or_num_group_def Let_def split: sum.splits)
  have 2: "chunk_size_or_num_group ?h ar g = ?u"
    by (simp add: chunk_size_or_num_group_def sample_num_ar_groups_def)
  have 3: "sample_ar_groups ext ns ar hs ?h g
     = (case ?u of
          Inl e \<Rightarrow> Inl e
        | Inr (k, g1) \<Rightarrow>
            (case sample_merge_group k (length ar) g1 of
               Inl e \<Rightarrow> Inl e
             | Inr (tmp, g2) \<Rightarrow>
                 (case attach ar (zip (map fst ar) tmp) of
                    Inl e \<Rightarrow> Inl e
                  | Inr ar' \<Rightarrow>
                      (case assign_ar_group ns ar' of
                         Inl e \<Rightarrow> Inl e
                       | Inr ns' \<Rightarrow> Inr (ns', g2)))))"
  proof (cases ?u)
    case (Inl e)
    with 2 show ?thesis by (simp add: sample_ar_groups_def Let_def)
  next
    case (Inr kg)
    obtain k g1 where kg: "kg = (k, g1)" by (cases kg)
    from Inr kg have "0 < k" by (auto dest!: uniform_member)
    moreover have "length tmp = length ar"
      if "sample_merge_group k (length ar) g1 = Inr (tmp, g2)" for tmp g2
      using sample_merge_group_range [OF that] by simp
    ultimately show ?thesis
      using 2 Inr kg by (auto simp: sample_ar_groups_def Let_def split: sum.splits)
  qed
  have 4: "\<forall>k tmp g1 g2. sample_merge_group k (length ar) g1 = Inr (tmp, g2)
         \<longrightarrow> length tmp = length ar \<and> (\<forall>j \<in> set tmp. 0 \<le> j \<and> j < k)"
    by (blast dest: sample_merge_group_range)
  from 1 2 3 4 show ?thesis by blast
qed

lemma example_random_groups:
  "sample_ar_groups reference_externals
     [\<lparr> var_name = ''a:0'', synchronizer = Some (AR default_AR), partitioner = [],
        part_config = [] \<rparr>,
      \<lparr> var_name = ''b:0'', synchronizer = Some (AR default_AR), partitioner = [],
        part_config = [] \<rparr>,
      \<lparr> var_name = ''c:0'', synchronizer = Some (AR default_AR), partitioner = [],
        part_config = [] \<rparr>]
     [(''a:0'', 0), (''b:0'', 1), (''c:0'', 2)] []
     ((default_heuristics 2147483647)\<lparr>merge_scheme := Some ''random'', chunk_size := Some 2\<rparr>)
     [1, 1, 0, 1]
   = Inr ([\<lparr> var_name = ''a:0'', synchronizer = Some (AR (default_AR\<lparr>group := 1\<rparr>)),
             partitioner = [], part_config = [] \<rparr>,
           \<lparr> var_name = ''b:0'', synchronizer = Some (AR (default_AR\<lparr>group := 0\<rparr>)),
             partitioner = [], part_config = [] \<rparr>,
           \<lparr> var_name = ''c:0'', synchronizer = Some (AR (default_AR\<lparr>group := 1\<rparr>)),
             partitioner = [], part_config = [] \<rparr>], [])"
  by code_simp

theorem no_scheme_groups_as_random_witness:
  "sample_ar_groups reference_externals
     [\<lparr> var_name = ''a:0'', synchronizer = Some (AR default_AR), partitioner = [],
        part_config = [] \<rparr>,
      \<lparr> var_name = ''b:0'', synchronizer = Some (AR default_AR), partitioner = [],
        part_config = [] \<rparr>,
      \<lparr> var_name = ''c:0'', synchronizer = Some (AR default_AR), partitioner = [],
        part_config = [] \<rparr>]
     [(''a:0'', 0), (''b:0'', 1), (''c:0'', 2)] []
     ((default_heuristics 2147483647)\<lparr>merge_scheme := None, chunk_size := Some 5\<rparr>)
     [1, 1, 0, 1]
   = Inr ([\<lparr> var_name = ''a:0'', synchronizer = Some (AR (default_AR\<lparr>group := 1\<rparr>)),
             partitioner = [], part_config = [] \<rparr>,
           \<lparr> var_name = ''b:0'', synchronizer = Some (AR (default_AR\<lparr>group := 0\<rparr>)),
             partitioner = [], part_config = [] \<rparr>,
           \<lparr> var_name = ''c:0'', synchronizer = Some (AR (default_AR\<lparr>group := 1\<rparr>)),
             partitioner = [], part_config = [] \<rparr>], [])"
  using no_scheme_groups_as_random
          [where ext = reference_externals
             and ns = "[\<lparr> var_name = ''a:0'', synchronizer = Some (AR default_AR), partitioner = [],
                  part_config = [] \<rparr>,
                \<lparr> var_name = ''b:0'', synchronizer = Some (AR default_AR), partitioner = [],
                  part_config = [] \<rparr>,
                \<lparr> var_name = ''c:0'', synchronizer = Some (AR default_AR), partitioner = [],
                  part_config = [] \<rparr>]"
             and ar = "[(''a:0'', 0), (''b:0'', 1), (''c:0'', 2)]" and hs = "[]"
             and h = "default_heuristics 2147483647" and c = "Some 5"
             and g = "[1, 1, 0, 1]" and c' = "Some 2"]
        example_random_groups
  by (elim conjE) (erule trans)

end
